theory Spec2Isabelle
  imports Main "HOL-Library.Word"
begin

section \<open>Data model\<close>

text \<open>
  The program is \<^verbatim>\<open>src/main.py\<close>: a Discord bot that receives WebSub pushes from
  YouTube on an aiohttp server, checks their signature, extracts the newest video from
  the Atom document and announces it once in a Discord channel.

  A Python \<^verbatim>\<open>str\<close> is modelled as a \<^typ>\<open>string\<close>: a list of characters, each
  \<^typ>\<open>char\<close> standing for the code point of the same number (0 to 255). A Python
  \<^verbatim>\<open>bytes\<close> value is a list of 8-bit words. \<^verbatim>\<open>None\<close> is \<^term>\<open>None\<close>.
\<close>

type_synonym bytes = "8 word list"

text \<open>Exceptions are values: every raise is an \<open>Inl\<close> result.\<close>

datatype error =
    TypeError
  | IndexError
  | ParseError
  | RuntimeError string
  | ClientError
  | DiscordException

text \<open>The module-level configuration, read once from the environment (lines 17 to 27).\<close>

record config =
  DISCORD_CHANNEL_ID :: int
  YOUTUBE_CHANNEL_ID :: "string option"
  PUBLIC_BASE_URL :: "string option"
  WEBSUB_SECRET :: string

text \<open>Python's truth value of an optional string: \<^verbatim>\<open>None\<close> and \<^verbatim>\<open>""\<close> are false.\<close>

fun truthy :: "string option \<Rightarrow> bool" where
  "truthy None = False"
| "truthy (Some s) = (s \<noteq> [])"

text \<open>What an f-string prints for an optional string: \<^verbatim>\<open>None\<close> prints as its name.\<close>

fun format_opt :: "string option \<Rightarrow> string" where
  "format_opt None = ''None''"
| "format_opt (Some s) = s"

definition HUB_URL :: string where
  "HUB_URL = ''https://pubsubhubbub.appspot.com/subscribe''"

definition TOPIC_URL :: "config \<Rightarrow> string" where
  "TOPIC_URL cfg =
     ''https://www.youtube.com/feeds/videos.xml?channel_id='' @ format_opt (YOUTUBE_CHANNEL_ID cfg)"

definition CALLBACK_URL :: "config \<Rightarrow> string" where
  "CALLBACK_URL cfg = format_opt (PUBLIC_BASE_URL cfg) @ ''/websub''"

subsection \<open>HTTP requests and responses\<close>

text \<open>
  Of an aiohttp request the handlers read the query parameters, the headers and the raw
  body. \<open>query\<close> and \<open>headers\<close> are the \<^verbatim>\<open>.get\<close> lookups of the two multi-dicts:
  the first value stored under the key, or \<^term>\<open>None\<close>.
  A response is its status and its text; \<^verbatim>\<open>web.Response(status=204)\<close> has no text.
\<close>

record request =
  query :: "string \<Rightarrow> string option"
  headers :: "string \<Rightarrow> string option"
  body :: bytes

record response =
  status :: int
  body_text :: "string option"

subsection \<open>Parsed XML\<close>

text \<open>
  An \<^verbatim>\<open>xml.etree.ElementTree.Element\<close>: its tag (a namespaced tag is
  \<^verbatim>\<open>{uri}local\<close>), its attribute dictionary, its text (\<^verbatim>\<open>None\<close> for an element
  without character data) and its child elements in document order.
\<close>

datatype element =
  Element (elem_tag: string) (elem_attrib: "(string \<times> string) list")
          (elem_text: "string option") (elem_children: "element list")

subsection \<open>Library functions taken as parameters\<close>

text \<open>
  Three functions of the Python standard library are not part of the program and are
  parameters of the model:
  \<^item> \<open>hmac_sha1 key msg\<close> is \<^verbatim>\<open>hmac.new(key, msg=msg, digestmod=hashlib.sha1).digest()\<close>,
    the HMAC-SHA1 of \<open>msg\<close> keyed by \<open>key\<close>;
  \<^item> \<open>decode_utf8_replace\<close> is \<^verbatim>\<open>bytes.decode("utf-8", errors="replace")\<close>;
  \<^item> \<open>ET_fromstring\<close> is \<^verbatim>\<open>ET.fromstring\<close>: the root element of a well-formed
    document, \<^verbatim>\<open>ParseError\<close> raised otherwise.
\<close>

record stdlib =
  hmac_sha1 :: "bytes \<Rightarrow> bytes \<Rightarrow> bytes"
  decode_utf8_replace :: "bytes \<Rightarrow> string"
  ET_fromstring :: "string \<Rightarrow> error + element"

section \<open>Signature verification: \<^verbatim>\<open>_verify_signature\<close>\<close>

subsection \<open>The string and bytes operations it calls\<close>

text \<open>\<^verbatim>\<open>s.startswith(p)\<close>.\<close>

definition startswith :: "string \<Rightarrow> string \<Rightarrow> bool" where
  "startswith s p = (take (length p) s = p)"

text \<open>
  \<^verbatim>\<open>s.split(c, 1)\<close> for a one-character separator: at most one split, at the first
  occurrence of the separator.
\<close>

definition split1 :: "char \<Rightarrow> string \<Rightarrow> string list" where
  "split1 c s =
     (if c \<in> set s then [takeWhile (\<lambda>x. x \<noteq> c) s, tl (dropWhile (\<lambda>x. x \<noteq> c) s)]
      else [s])"

text \<open>\<^verbatim>\<open>xs[i]\<close> for \<open>i \<ge> 0\<close>: \<^verbatim>\<open>IndexError\<close> out of range.\<close>

definition getitem :: "'a list \<Rightarrow> nat \<Rightarrow> error + 'a" where
  "getitem xs i = (if i < length xs then Inr (xs ! i) else Inl IndexError)"

text \<open>
  \<^verbatim>\<open>str.isspace\<close> on one character. Below 256 the whitespace code points are
  9 to 13, 28 to 32, 133 and 160.
\<close>

definition isspace :: "char \<Rightarrow> bool" where
  "isspace c = (let n = (of_char c :: nat)
                in (9 \<le> n \<and> n \<le> 13) \<or> (28 \<le> n \<and> n \<le> 32) \<or> n = 133 \<or> n = 160)"

text \<open>\<^verbatim>\<open>s.strip()\<close>: leading and trailing whitespace removed.\<close>

definition strip :: "string \<Rightarrow> string" where
  "strip s = rev (dropWhile isspace (rev (dropWhile isspace s)))"

definition isascii :: "string \<Rightarrow> bool" where
  "isascii s = list_all (\<lambda>c. (of_char c :: nat) < 128) s"

text \<open>
  \<^verbatim>\<open>hmac.compare_digest(a, b)\<close> on two \<^verbatim>\<open>str\<close>: equality in constant time. It
  accepts ASCII strings only and raises \<^verbatim>\<open>TypeError\<close> otherwise.
\<close>

definition compare_digest :: "string \<Rightarrow> string \<Rightarrow> error + bool" where
  "compare_digest a b = (if isascii a \<and> isascii b then Inr (a = b) else Inl TypeError)"

text \<open>\<^verbatim>\<open>s.encode("utf-8")\<close>: one byte below 128, two bytes from 128 to 255.\<close>

definition encode_utf8 :: "string \<Rightarrow> bytes" where
  "encode_utf8 s =
     concat (map (\<lambda>c. let n = (of_char c :: nat)
                       in if n < 128 then [of_nat n]
                          else [of_nat (192 + n div 64), of_nat (128 + n mod 64)]) s)"

text \<open>\<^verbatim>\<open>mac.hexdigest()\<close>: the digest in lowercase hexadecimal, two digits a byte.\<close>

definition hexdigit :: "nat \<Rightarrow> char" where
  "hexdigit n = ''0123456789abcdef'' ! (n mod 16)"

definition hexdigest :: "bytes \<Rightarrow> string" where
  "hexdigest bs = concat (map (\<lambda>b. [hexdigit (unat b div 16), hexdigit (unat b mod 16)]) bs)"

subsection \<open>The function\<close>

definition verify_signature :: "stdlib \<Rightarrow> config \<Rightarrow> bytes \<Rightarrow> string \<Rightarrow> error + bool" where
  "verify_signature lib cfg raw_body signature_header =
     (if WEBSUB_SECRET cfg = [] then Inr True
      else if signature_header = [] \<or> \<not> startswith signature_header ''sha1='' then Inr False
      else (case getitem (split1 CHR ''='' signature_header) 1 of
              Inl e \<Rightarrow> Inl e
            | Inr part \<Rightarrow>
                (let their_sig = strip part;
                     mac = hmac_sha1 lib (encode_utf8 (WEBSUB_SECRET cfg)) raw_body;
                     our_sig = hexdigest mac
                 in compare_digest our_sig their_sig)))"

section \<open>The verification handshake: \<^verbatim>\<open>websub_get\<close>\<close>

definition websub_get :: "request \<Rightarrow> response" where
  "websub_get req =
     (let challenge = query req ''hub.challenge''
      in if truthy challenge then \<lparr>status = 200, body_text = challenge\<rparr>
         else \<lparr>status = 200, body_text = Some ''ok''\<rparr>)"

section \<open>Subscription: \<^verbatim>\<open>subscribe_websub\<close>\<close>

text \<open>\<^verbatim>\<open>str(n)\<close> for an integer, as an f-string prints it.\<close>

fun digits :: "nat \<Rightarrow> string" where
  "digits n = (if n < 10 then [''0123456789'' ! n]
               else digits (n div 10) @ [''0123456789'' ! (n mod 10)])"

declare digits.simps [simp del]

definition str_int :: "int \<Rightarrow> string" where
  "str_int i = (if i < 0 then CHR ''-'' # digits (nat (- i)) else digits (nat i))"

text \<open>
  What the function reads of the hub's response: \<^verbatim>\<open>resp.status\<close> and
  \<^verbatim>\<open>await resp.text()\<close>.
\<close>

record hub_response =
  resp_status :: int
  resp_text :: string

type_synonym form = "(string \<times> string) list"

text \<open>The form fields of the subscription request (lines 62 to 69).\<close>

definition subscribe_data :: "config \<Rightarrow> form" where
  "subscribe_data cfg =
     [(''hub.mode'', ''subscribe''),
      (''hub.topic'', TOPIC_URL cfg),
      (''hub.callback'', CALLBACK_URL cfg),
      (''hub.verify'', ''async'')]
     @ (if WEBSUB_SECRET cfg \<noteq> [] then [(''hub.secret'', WEBSUB_SECRET cfg)] else [])"

text \<open>
  \<open>post url data\<close> stands for \<^verbatim>\<open>session.post(url, data=data)\<close> followed by reading
  the response: the response received, or the exception raised when none is received.
  The function returns its result (\<open>Inl\<close> for a raised exception) and the list of the
  POST requests it has sent. The two \<^verbatim>\<open>print\<close> calls of the source are left out.
\<close>

definition subscribe_websub ::
    "(string \<Rightarrow> form \<Rightarrow> error + hub_response) \<Rightarrow> config \<Rightarrow> (error + unit) \<times> (string \<times> form) list" where
  "subscribe_websub post cfg =
     (let data = subscribe_data cfg
      in (case post HUB_URL data of
            Inl e \<Rightarrow> Inl e
          | Inr resp \<Rightarrow>
              if resp_status resp \<notin> {202, 204, 200}
              then Inl (RuntimeError (''WebSub subscribe failed: '' @ str_int (resp_status resp)
                                       @ '' '' @ resp_text resp))
              else Inr (),
          [(HUB_URL, data)]))"

section \<open>Feed parsing: \<^verbatim>\<open>parse_atom_for_video\<close>\<close>

text \<open>The two namespaces of the dictionary \<^verbatim>\<open>ns\<close>, and a tag qualified by one.\<close>

definition atom_ns :: string where
  "atom_ns = ''http://www.w3.org/2005/Atom''"

definition yt_ns :: string where
  "yt_ns = ''http://www.youtube.com/xml/schemas/2015''"

definition qname :: "string \<Rightarrow> string \<Rightarrow> string" where
  "qname uri name = ''{'' @ uri @ ''}'' @ name"

text \<open>
  \<^verbatim>\<open>e.find("prefix:name", ns)\<close>: the first child of \<open>e\<close>, in document order, with the
  qualified tag; \<^verbatim>\<open>None\<close> when there is none.
\<close>

definition find_child :: "element \<Rightarrow> string \<Rightarrow> element option" where
  "find_child e t = find (\<lambda>c. elem_tag c = t) (elem_children e)"

text \<open>
  The result is \<open>Inl\<close> when \<^verbatim>\<open>ET.fromstring\<close> raises, \<open>Inr None\<close> for the source's
  \<^verbatim>\<open>return None\<close>, and \<open>Inr (Some (video_id, title, link))\<close> for the returned tuple.
  The title and the link of the tuple may themselves be \<^verbatim>\<open>None\<close>.
\<close>

definition parse_atom_for_video ::
    "stdlib \<Rightarrow> string \<Rightarrow> error + (string \<times> string option \<times> string option) option" where
  "parse_atom_for_video lib atom_xml =
     (case ET_fromstring lib atom_xml of
        Inl e \<Rightarrow> Inl e
      | Inr root \<Rightarrow>
          (case find_child root (qname atom_ns ''entry'') of
             None \<Rightarrow> Inr None
           | Some entry \<Rightarrow>
               (let video_id_el = find_child entry (qname yt_ns ''videoId'');
                    title_el = find_child entry (qname atom_ns ''title'');
                    link_el = find_child entry (qname atom_ns ''link'');
                    video_id = (case video_id_el of Some el \<Rightarrow> elem_text el | None \<Rightarrow> None);
                    title = (case title_el of Some el \<Rightarrow> elem_text el | None \<Rightarrow> Some ''(no title)'');
                    link0 = (case link_el of
                               Some el \<Rightarrow> map_of (elem_attrib el) ''href''
                             | None \<Rightarrow> None);
                    link = (if \<not> truthy link0 \<and> truthy video_id
                            then Some (''https://www.youtube.com/watch?v='' @ format_opt video_id)
                            else link0)
                in (case video_id of
                      None \<Rightarrow> Inr None
                    | Some v \<Rightarrow> if v = [] then Inr None else Inr (Some (v, title, link))))))"

section \<open>Deduplication and dispatch: \<^verbatim>\<open>announce_video\<close>\<close>

text \<open>
  The Discord client is outside the program. Of it the function uses the cache lookup
  \<^verbatim>\<open>bot.get_channel\<close>, the remote lookup \<^verbatim>\<open>bot.fetch_channel\<close> and
  \<^verbatim>\<open>channel.send\<close>; the last two may raise. A channel is an opaque handle.
\<close>

type_synonym channel = nat

record discord =
  get_channel :: "int \<Rightarrow> channel option"
  fetch_channel :: "int \<Rightarrow> error + channel"
  send :: "channel \<Rightarrow> string \<Rightarrow> error + unit"

text \<open>
  The text of the announcement,
  \<^verbatim>\<open>f"<megaphone> **New upload:** {title}\n{link}"\<close>, without its first character: the
  megaphone sign U+1F4E2 lies outside the modelled code points.
\<close>

definition announcement :: "string option \<Rightarrow> string option \<Rightarrow> string" where
  "announcement title link =
     '' **New upload:** '' @ format_opt title @ [CHR 0x0A] @ format_opt link"

text \<open>
  What a call does to the world, in order: the insertion into the set
  \<^verbatim>\<open>seen_video_ids\<close>, a remote channel lookup, an attempt to send.
\<close>

datatype effect =
    Seen_add string
  | Fetch_channel int
  | Send channel string

text \<open>
  The only state of the program is the global set \<^verbatim>\<open>seen_video_ids\<close>; it is passed
  in and returned. The function returns its result (\<open>Inl\<close> for a raised exception), the
  effects of the call and the set afterwards. The membership test and the insertion are
  not separated by an \<^verbatim>\<open>await\<close>, so no other task of the event loop runs between them.
\<close>

definition announce_video ::
    "discord \<Rightarrow> config \<Rightarrow> string \<Rightarrow> string option \<Rightarrow> string option \<Rightarrow> string set
       \<Rightarrow> (error + unit) \<times> effect list \<times> string set" where
  "announce_video client cfg video_id title link seen_video_ids =
     (if video_id \<in> seen_video_ids then (Inr (), [], seen_video_ids)
      else
        (let seen' = insert video_id seen_video_ids;
             cid = DISCORD_CHANNEL_ID cfg;
             msg = announcement title link
         in (case get_channel client cid of
               Some channel \<Rightarrow>
                 (send client channel msg, [Seen_add video_id, Send channel msg], seen')
             | None \<Rightarrow>
                 (case fetch_channel client cid of
                    Inl e \<Rightarrow> (Inl e, [Seen_add video_id, Fetch_channel cid], seen')
                  | Inr channel \<Rightarrow>
                      (send client channel msg,
                       [Seen_add video_id, Fetch_channel cid, Send channel msg], seen')))))"

text \<open>
  A sequence of calls, each with the Discord client as it answers at that moment. The
  log holds, for each call in order, the id it was called with and its effects.
\<close>

type_synonym call = "discord \<times> string \<times> string option \<times> string option"

fun announce_all ::
    "config \<Rightarrow> call list \<Rightarrow> string set \<Rightarrow> (string \<times> effect list) list \<times> string set" where
  "announce_all cfg [] seen = ([], seen)"
| "announce_all cfg ((client, video_id, title, link) # cs) seen =
     (case announce_video client cfg video_id title link seen of
        (r, es, seen') \<Rightarrow>
          (case announce_all cfg cs seen' of
             (log, seen'') \<Rightarrow> ((video_id, es) # log, seen'')))"

text \<open>The id a call is made with.\<close>

definition call_id :: "call \<Rightarrow> string" where
  "call_id c = fst (snd c)"

text \<open>Whether an effect is an attempt to send.\<close>

definition is_send :: "effect \<Rightarrow> bool" where
  "is_send e = (case e of Send c m \<Rightarrow> True | _ \<Rightarrow> False)"

text \<open>
  Whether a log entry is a call for the id \<open>x\<close> that passed the test of the set (it
  inserted the id), and the number of send attempts the calls for \<open>x\<close> have made.
\<close>

definition accepted :: "string \<Rightarrow> (string \<times> effect list) \<Rightarrow> bool" where
  "accepted x entry = (fst entry = x \<and> Seen_add x \<in> set (snd entry))"

definition sends_for :: "string \<Rightarrow> (string \<times> effect list) list \<Rightarrow> nat" where
  "sends_for x log =
     length (filter is_send (concat (map snd (filter (\<lambda>entry. fst entry = x) log))))"

subsection \<open>Tasks of the event loop\<close>

text \<open>
  \<^verbatim>\<open>websub_post\<close> starts each call as a task, and tasks interleave at their
  \<^verbatim>\<open>await\<close> points. A task is pending with its arguments, suspended in
  \<^verbatim>\<open>await bot.fetch_channel\<close> or in \<^verbatim>\<open>await channel.send\<close> with its id and the message
  at hand, or finished with its result. \<open>resume\<close> runs a task from where it stands to
  its next suspension; the test of the set and the insertion belong to the first such
  step.
\<close>

datatype task_state =
    Pending string "string option" "string option"
  | Awaiting_fetch string string
  | Awaiting_send string channel string
  | Finished "error + unit"

definition resume ::
    "discord \<Rightarrow> config \<Rightarrow> task_state \<Rightarrow> string set \<Rightarrow> task_state \<times> effect list \<times> string set" where
  "resume client cfg t seen_video_ids =
     (let cid = DISCORD_CHANNEL_ID cfg
      in (case t of
            Pending video_id title link \<Rightarrow>
              if video_id \<in> seen_video_ids then (Finished (Inr ()), [], seen_video_ids)
              else
                (let seen' = insert video_id seen_video_ids;
                     msg = announcement title link
                 in (case get_channel client cid of
                       Some channel \<Rightarrow>
                         (Awaiting_send video_id channel msg, [Seen_add video_id], seen')
                     | None \<Rightarrow> (Awaiting_fetch video_id msg, [Seen_add video_id], seen')))
          | Awaiting_fetch video_id msg \<Rightarrow>
              (case fetch_channel client cid of
                 Inl e \<Rightarrow> (Finished (Inl e), [Fetch_channel cid], seen_video_ids)
               | Inr channel \<Rightarrow>
                   (Awaiting_send video_id channel msg, [Fetch_channel cid], seen_video_ids))
          | Awaiting_send video_id channel msg \<Rightarrow>
              (Finished (send client channel msg), [Send channel msg], seen_video_ids)
          | Finished r \<Rightarrow> (Finished r, [], seen_video_ids)))"

text \<open>The video id a task was started with (none is kept once it has finished).\<close>

definition task_id :: "task_state \<Rightarrow> string" where
  "task_id t = (case t of Pending v title link \<Rightarrow> v | Awaiting_fetch v msg \<Rightarrow> v
                | Awaiting_send v channel msg \<Rightarrow> v | Finished r \<Rightarrow> [])"

text \<open>
  A schedule names, step by step, the task the event loop resumes and the Discord client
  as it answers at that moment. The result is the trace of all effects, each with the id
  of the task that caused it, the tasks and the set at the end.
\<close>

fun run_tasks ::
    "config \<Rightarrow> (nat \<times> discord) list \<Rightarrow> task_state list \<Rightarrow> string set
       \<Rightarrow> (string \<times> effect) list \<times> task_state list \<times> string set" where
  "run_tasks cfg [] pool seen = ([], pool, seen)"
| "run_tasks cfg ((i, client) # schedule) pool seen =
     (if i < length pool
      then (case resume client cfg (pool ! i) seen of
              (t', es, seen') \<Rightarrow>
                (case run_tasks cfg schedule (pool[i := t']) seen' of
                   (trace, pool', seen'') \<Rightarrow>
                     (map (Pair (task_id (pool ! i))) es @ trace, pool', seen'')))
      else run_tasks cfg schedule pool seen)"

text \<open>
  Whether a task for the id \<open>x\<close> is suspended between its insertion and its send, and
  the numbers of insertions of \<open>x\<close> and of send attempts by tasks for \<open>x\<close> in a trace.
\<close>

definition awaiting :: "string \<Rightarrow> task_state \<Rightarrow> nat" where
  "awaiting x t = (case t of Awaiting_fetch v msg \<Rightarrow> if v = x then 1 else 0
                   | Awaiting_send v channel msg \<Rightarrow> if v = x then 1 else 0
                   | _ \<Rightarrow> 0)"

definition inserts_of :: "string \<Rightarrow> (string \<times> effect) list \<Rightarrow> nat" where
  "inserts_of x trace = count_list (map snd trace) (Seen_add x)"

definition sends_of :: "string \<Rightarrow> (string \<times> effect) list \<Rightarrow> nat" where
  "sends_of x trace = length (filter (\<lambda>entry. fst entry = x \<and> is_send (snd entry)) trace)"

section \<open>The content push: \<^verbatim>\<open>websub_post\<close>\<close>

text \<open>\<^verbatim>\<open>request.headers.get("X-Hub-Signature", "")\<close>.\<close>

definition signature_of :: "request \<Rightarrow> string" where
  "signature_of req = (case headers req ''X-Hub-Signature'' of Some v \<Rightarrow> v | None \<Rightarrow> [])"

text \<open>
  The handler returns its response, or \<open>Inl\<close> when an exception leaves it, and the
  task it has handed to \<^verbatim>\<open>bot.loop.create_task\<close>, if any: the arguments of the pending
  \<^verbatim>\<open>announce_video\<close> call; \<^verbatim>\<open>create_task\<close> itself is taken to succeed. The call
  of \<^verbatim>\<open>_verify_signature\<close> stands before the \<^verbatim>\<open>try\<close> block, so an exception it
  raises is not caught by the handler; every exception raised inside the block is
  answered with 500.
\<close>

type_synonym task = "string \<times> string option \<times> string option"

definition websub_post :: "stdlib \<Rightarrow> config \<Rightarrow> request \<Rightarrow> (error + response) \<times> task option" where
  "websub_post lib cfg req =
     (let raw = body req;
          sig = signature_of req
      in (case verify_signature lib cfg raw sig of
            Inl e \<Rightarrow> (Inl e, None)
          | Inr ok \<Rightarrow>
              if \<not> ok then (Inr \<lparr>status = 403, body_text = Some ''Invalid signature''\<rparr>, None)
              else
                (let atom_xml = decode_utf8_replace lib raw
                 in (case parse_atom_for_video lib atom_xml of
                       Inl e \<Rightarrow> (Inr \<lparr>status = 500, body_text = Some ''error''\<rparr>, None)
                     | Inr None \<Rightarrow> (Inr \<lparr>status = 204, body_text = None\<rparr>, None)
                     | Inr (Some parsed) \<Rightarrow>
                         (Inr \<lparr>status = 204, body_text = None\<rparr>, Some parsed)))))"

text \<open>
  One delivery: the handler runs, and the event loop then runs the task the handler
  created, if it created one.
\<close>

definition deliver ::
    "stdlib \<Rightarrow> discord \<Rightarrow> config \<Rightarrow> request \<Rightarrow> string set
       \<Rightarrow> (error + response) \<times> effect list \<times> string set" where
  "deliver lib client cfg req seen =
     (case websub_post lib cfg req of
        (r, None) \<Rightarrow> (r, [], seen)
      | (r, Some (video_id, title, link)) \<Rightarrow>
          (case announce_video client cfg video_id title link seen of
             (res, es, seen') \<Rightarrow> (r, es, seen')))"

section \<open>Example inputs\<close>

text \<open>
  The decoder of the example libraries reads each byte as the character of the same
  number. On bytes below 128 this is \<^verbatim>\<open>bytes.decode("utf-8", errors="replace")\<close>; the
  examples decode ASCII bodies only.
\<close>

definition decode_ascii_bytes :: "bytes \<Rightarrow> string" where
  "decode_ascii_bytes raw = map (\<lambda>b. char_of (unat b)) raw"

text \<open>
  The HMAC-SHA1 of the message \<^verbatim>\<open>The quick brown fox jumps over the lazy dog\<close> under the
  key \<^verbatim>\<open>key\<close>, and a library whose \<open>hmac_sha1\<close> returns it.
\<close>

definition fox_body :: bytes where
  "fox_body = map of_char ''The quick brown fox jumps over the lazy dog''"

definition fox_digest :: bytes where
  "fox_digest = [0xde, 0x7c, 0x9b, 0x85, 0xb8, 0xb7, 0x8a, 0xa6, 0xbc, 0x8a,
                 0x7a, 0x36, 0xf7, 0x0a, 0x90, 0x70, 0x1c, 0x9d, 0xb4, 0xd9]"

definition fox_hex :: string where
  "fox_hex = ''de7c9b85b8b78aa6bc8a7a36f70a90701c9db4d9''"

definition example_cfg :: config where
  "example_cfg = \<lparr>DISCORD_CHANNEL_ID = 1, YOUTUBE_CHANNEL_ID = Some ''UC123'',
                   PUBLIC_BASE_URL = Some ''https://bot.example'', WEBSUB_SECRET = ''key''\<rparr>"

definition fox_lib :: stdlib where
  "fox_lib = \<lparr>hmac_sha1 = (\<lambda>key msg. fox_digest),
               decode_utf8_replace = decode_ascii_bytes,
               ET_fromstring = (\<lambda>s. Inl ParseError)\<rparr>"

text \<open>
  A library whose parser knows one document: it returns the given root element for it
  and raises \<^verbatim>\<open>ParseError\<close> for every other string.
\<close>

definition lib_parsing :: "string \<Rightarrow> element \<Rightarrow> stdlib" where
  "lib_parsing doc root =
     \<lparr>hmac_sha1 = (\<lambda>key msg. fox_digest),
      decode_utf8_replace = decode_ascii_bytes,
      ET_fromstring = (\<lambda>s. if s = doc then Inr root else Inl ParseError)\<rparr>"

text \<open>
  Example Atom documents and the trees \<^verbatim>\<open>ET.fromstring\<close> builds for them: a feed
  element declaring the two namespaces, around at most one entry.
\<close>

definition feed_open :: string where
  "feed_open = ''<feed xmlns='' @ [CHR 0x22] @ atom_ns @ [CHR 0x22]
               @ '' xmlns:yt='' @ [CHR 0x22] @ yt_ns @ [CHR 0x22] @ ''>''"

definition feed_doc :: "string \<Rightarrow> string" where
  "feed_doc inner = feed_open @ inner @ ''</feed>''"

definition feed_root :: "element list \<Rightarrow> element" where
  "feed_root entries = Element (qname atom_ns ''feed'') [] None entries"

definition entry_el :: "element list \<Rightarrow> element" where
  "entry_el kids = Element (qname atom_ns ''entry'') [] None kids"

definition video_id_el :: "string option \<Rightarrow> element" where
  "video_id_el t = Element (qname yt_ns ''videoId'') [] t []"

definition title_el :: "string option \<Rightarrow> element" where
  "title_el t = Element (qname atom_ns ''title'') [] t []"

definition link_el :: "(string \<times> string) list \<Rightarrow> element" where
  "link_el attrs = Element (qname atom_ns ''link'') attrs None []"

definition doc_empty :: string where
  "doc_empty = feed_doc []"

definition root_empty :: element where
  "root_empty = feed_root []"

definition doc_no_id :: string where
  "doc_no_id = feed_doc ''<entry><title>Hello</title></entry>''"

definition entry_no_id :: element where
  "entry_no_id = entry_el [title_el (Some ''Hello'')]"

definition doc_no_link :: string where
  "doc_no_link = feed_doc ''<entry><yt:videoId>abc123</yt:videoId><title>Hello</title></entry>''"

definition entry_no_link :: element where
  "entry_no_link = entry_el [video_id_el (Some ''abc123''), title_el (Some ''Hello'')]"

definition doc_no_href :: string where
  "doc_no_href = feed_doc (''<entry><yt:videoId>abc123</yt:videoId><link rel='' @ [CHR 0x22]
                           @ ''alternate'' @ [CHR 0x22] @ ''/></entry>'')"

definition entry_no_href :: element where
  "entry_no_href = entry_el [video_id_el (Some ''abc123''), link_el [(''rel'', ''alternate'')]]"

definition doc_empty_title :: string where
  "doc_empty_title = feed_doc ''<entry><yt:videoId>abc123</yt:videoId><title/></entry>''"

definition entry_empty_title :: element where
  "entry_empty_title = entry_el [video_id_el (Some ''abc123''), title_el None]"

definition doc_empty_id :: string where
  "doc_empty_id = feed_doc ''<entry><yt:videoId/><title>Hello</title></entry>''"

definition entry_empty_id :: element where
  "entry_empty_id = entry_el [video_id_el None, title_el (Some ''Hello'')]"

text \<open>
  Discord clients: one with the channel in its cache, one that has to look it up, one
  whose lookup fails, one whose send is rejected.
\<close>

definition ok_client :: discord where
  "ok_client = \<lparr>get_channel = (\<lambda>cid. Some 7), fetch_channel = (\<lambda>cid. Inr 7),
                 send = (\<lambda>ch msg. Inr ())\<rparr>"

definition uncached_client :: discord where
  "uncached_client = \<lparr>get_channel = (\<lambda>cid. None), fetch_channel = (\<lambda>cid. Inr 7),
                       send = (\<lambda>ch msg. Inr ())\<rparr>"

definition unreachable_client :: discord where
  "unreachable_client = \<lparr>get_channel = (\<lambda>cid. None),
                          fetch_channel = (\<lambda>cid. Inl DiscordException),
                          send = (\<lambda>ch msg. Inr ())\<rparr>"

definition rejecting_client :: discord where
  "rejecting_client = \<lparr>get_channel = (\<lambda>cid. Some 7), fetch_channel = (\<lambda>cid. Inr 7),
                        send = (\<lambda>ch msg. Inl DiscordException)\<rparr>"

text \<open>Three calls: a video, the same video again, another video.\<close>

definition example_calls :: "call list" where
  "example_calls =
     [(ok_client, ''v1'', Some ''Hello'', Some ''https://example.com/v1''),
      (ok_client, ''v1'', Some ''Hello'', Some ''https://example.com/v1''),
      (uncached_client, ''v2'', Some ''World'', Some ''https://example.com/v2'')]"

definition hello_msg :: string where
  "hello_msg = announcement (Some ''Hello'') (Some ''https://example.com/v1'')"

definition world_msg :: string where
  "world_msg = announcement (Some ''World'') (Some ''https://example.com/v2'')"

text \<open>A push request with the given signature header and body.\<close>

definition push :: "string \<Rightarrow> bytes \<Rightarrow> request" where
  "push sig raw = \<lparr>query = (\<lambda>k. None),
                   headers = (\<lambda>k. if k = ''X-Hub-Signature'' then Some sig else None),
                   body = raw\<rparr>"

text \<open>
  A document with id, title and explicit link; \<open>full_digest\<close> is the HMAC-SHA1 of its
  bytes under the key \<^verbatim>\<open>key\<close>.
\<close>

definition doc_full :: string where
  "doc_full = feed_doc (''<entry><yt:videoId>v1</yt:videoId><title>Hello</title><link href=''
                        @ [CHR 0x22] @ ''https://example.com/v1'' @ [CHR 0x22] @ ''/></entry>'')"

definition entry_full :: element where
  "entry_full = entry_el [video_id_el (Some ''v1''), title_el (Some ''Hello''),
                          link_el [(''href'', ''https://example.com/v1'')]]"

definition full_digest :: bytes where
  "full_digest = [0xcb, 0x52, 0x4e, 0x98, 0xde, 0x49, 0x07, 0x59, 0xd3, 0xca,
                  0x8b, 0xb4, 0x53, 0x95, 0x05, 0x4f, 0xad, 0x18, 0x4b, 0xeb]"

definition full_hex :: string where
  "full_hex = ''cb524e98de490759d3ca8bb45395054fad184beb''"

definition full_lib :: stdlib where
  "full_lib = (lib_parsing doc_full (feed_root [entry_full]))\<lparr>hmac_sha1 := (\<lambda>key msg. full_digest)\<rparr>"

definition full_body :: bytes where
  "full_body = map of_char doc_full"

text \<open>A hub that answers every request with the given status and text.\<close>

definition hub_answering :: "int \<Rightarrow> string \<Rightarrow> string \<Rightarrow> form \<Rightarrow> error + hub_response" where
  "hub_answering st txt url data = Inr \<lparr>resp_status = st, resp_text = txt\<rparr>"

section \<open>Properties of \<^verbatim>\<open>_verify_signature\<close>\<close>

lemma hexdigit_in: "hexdigit n \<in> set ''0123456789abcdef''"
  unfolding hexdigit_def by (rule nth_mem) simp

lemma hexdigest_chars: "c \<in> set (hexdigest bs) \<Longrightarrow> c \<in> set ''0123456789abcdef''"
  unfolding hexdigest_def using hexdigit_in by auto

lemma hexchar_ascii: "c \<in> set ''0123456789abcdef'' \<Longrightarrow> (of_char c :: nat) < 128"
  by auto

lemma hexchar_not_space: "c \<in> set ''0123456789abcdef'' \<Longrightarrow> \<not> isspace c"
  by (auto simp: isspace_def)

lemma isascii_hexdigest: "isascii (hexdigest bs)"
  unfolding isascii_def list_all_iff using hexdigest_chars hexchar_ascii by blast

lemma dropWhile_none: "\<forall>c \<in> set s. \<not> P c \<Longrightarrow> dropWhile P s = s"
  by (cases s) auto

lemma strip_no_space: "\<forall>c \<in> set s. \<not> isspace c \<Longrightarrow> strip s = s"
  unfolding strip_def by (simp add: dropWhile_none)

lemma strip_hexdigest: "strip (hexdigest bs) = hexdigest bs"
  by (rule strip_no_space) (use hexdigest_chars hexchar_not_space in blast)

lemma startswith_sha1:
  assumes "startswith h ''sha1=''" shows "h = ''sha1='' @ drop 5 h"
proof -
  have len: "length ''sha1='' = 5" by simp
  from assms have "take 5 h = ''sha1=''" unfolding startswith_def len .
  then show ?thesis by (metis append_take_drop_id)
qed

lemma split_sha1: "getitem (split1 CHR ''='' (''sha1='' @ t)) 1 = Inr t"
  by (simp add: getitem_def split1_def)

lemma verify_signature_prefixed:
  assumes "WEBSUB_SECRET cfg \<noteq> []"
  shows "verify_signature lib cfg raw (''sha1='' @ t) =
           compare_digest (hexdigest (hmac_sha1 lib (encode_utf8 (WEBSUB_SECRET cfg)) raw)) (strip t)"
proof -
  have "startswith (''sha1='' @ t) ''sha1=''" by (simp add: startswith_def)
  with assms show ?thesis
    unfolding verify_signature_def by (simp only: split_sha1 Let_def) simp
qed

lemma verify_signature_no_prefix:
  assumes "WEBSUB_SECRET cfg \<noteq> []" "h = [] \<or> \<not> startswith h ''sha1=''"
  shows "verify_signature lib cfg raw h = Inr False"
  using assms unfolding verify_signature_def by auto

lemma compare_digest_True: "isascii a \<Longrightarrow> compare_digest a b = Inr True \<longleftrightarrow> b = a"
  by (auto simp: compare_digest_def)

lemma hexdigest_fox: "hexdigest fox_digest = fox_hex"
  by (simp add: hexdigest_def hexdigit_def fox_digest_def fox_hex_def)

text \<open>
  C2, as stated: success if and only if the header equals \<^verbatim>\<open>sha1=\<close> followed by the
  hex digest. This fails: the function strips whitespace around the digest part of the
  header, so a header with a space after \<^verbatim>\<open>sha1=\<close> is accepted although it differs
  from the exact string.
\<close>

theorem verify_signature_padded_counterexample:
  "WEBSUB_SECRET example_cfg \<noteq> []
   \<and> verify_signature fox_lib example_cfg fox_body (''sha1= '' @ fox_hex) = Inr True
   \<and> ''sha1= '' @ fox_hex
       \<noteq> ''sha1='' @ hexdigest (hmac_sha1 fox_lib (encode_utf8 (WEBSUB_SECRET example_cfg)) fox_body)"
proof -
  have s: "WEBSUB_SECRET example_cfg \<noteq> []" by (simp add: example_cfg_def)
  have d: "hmac_sha1 fox_lib (encode_utf8 (WEBSUB_SECRET example_cfg)) fox_body = fox_digest"
    by (simp add: fox_lib_def)
  have st: "strip (CHR '' '' # fox_hex) = fox_hex"
    by (simp add: strip_def isspace_def fox_hex_def)
  have "verify_signature fox_lib example_cfg fox_body (''sha1='' @ CHR '' '' # fox_hex) = Inr True"
    unfolding verify_signature_prefixed [OF s] d hexdigest_fox st
    using isascii_hexdigest [of fox_digest] by (simp add: compare_digest_def hexdigest_fox)
  moreover have "''sha1= '' @ fox_hex \<noteq> ''sha1='' @ hexdigest fox_digest"
    by (simp add: hexdigest_fox fox_hex_def)
  ultimately show ?thesis using s d by simp
qed

text \<open>
  C2, amended: for every body and every non-empty secret, \<^verbatim>\<open>_verify_signature\<close>
  returns \<^verbatim>\<open>True\<close> if and only if the header starts with \<^verbatim>\<open>sha1=\<close> and the rest of
  the header, with leading and trailing whitespace removed, is the lowercase hex
  encoding of the HMAC-SHA1 of the body keyed by the secret. In particular the header
  \<^verbatim>\<open>sha1=\<close> followed by that encoding is accepted. An empty header and a header
  without the prefix return \<^verbatim>\<open>False\<close>, and so does a header with the prefix whose
  stripped rest is ASCII and differs from the encoding.
\<close>

theorem verify_signature_iff:
  assumes "WEBSUB_SECRET cfg \<noteq> []"
  shows "(verify_signature lib cfg raw h = Inr True \<longleftrightarrow>
            startswith h ''sha1='' \<and>
            strip (drop 5 h) = hexdigest (hmac_sha1 lib (encode_utf8 (WEBSUB_SECRET cfg)) raw))
       \<and> verify_signature lib cfg raw
            (''sha1='' @ hexdigest (hmac_sha1 lib (encode_utf8 (WEBSUB_SECRET cfg)) raw)) = Inr True
       \<and> (h = [] \<or> \<not> startswith h ''sha1='' \<longrightarrow> verify_signature lib cfg raw h = Inr False)
       \<and> (startswith h ''sha1='' \<and> isascii (strip (drop 5 h)) \<and>
            strip (drop 5 h) \<noteq> hexdigest (hmac_sha1 lib (encode_utf8 (WEBSUB_SECRET cfg)) raw)
            \<longrightarrow> verify_signature lib cfg raw h = Inr False)"
proof (intro conjI)
  let ?our = "hexdigest (hmac_sha1 lib (encode_utf8 (WEBSUB_SECRET cfg)) raw)"
  show "verify_signature lib cfg raw h = Inr True \<longleftrightarrow> startswith h ''sha1='' \<and> strip (drop 5 h) = ?our"
  proof (cases "startswith h ''sha1=''")
    case True
    then have h: "h = ''sha1='' @ drop 5 h" by (rule startswith_sha1)
    have "verify_signature lib cfg raw h = compare_digest ?our (strip (drop 5 h))"
      using verify_signature_prefixed [OF assms, of lib raw "drop 5 h"] h by simp
    with True show ?thesis by (simp add: compare_digest_True isascii_hexdigest)
  next
    case False
    with assms have "verify_signature lib cfg raw h = Inr False"
      by (simp add: verify_signature_no_prefix)
    with False show ?thesis by simp
  qed
  show "verify_signature lib cfg raw (''sha1='' @ ?our) = Inr True"
    unfolding verify_signature_prefixed [OF assms]
    by (simp add: strip_hexdigest compare_digest_def isascii_hexdigest)
  show "h = [] \<or> \<not> startswith h ''sha1='' \<longrightarrow> verify_signature lib cfg raw h = Inr False"
    using assms by (simp add: verify_signature_no_prefix)
  show "startswith h ''sha1='' \<and> isascii (strip (drop 5 h)) \<and> strip (drop 5 h) \<noteq> ?our
          \<longrightarrow> verify_signature lib cfg raw h = Inr False"
  proof (intro impI, elim conjE)
    assume sw: "startswith h ''sha1=''" and a: "isascii (strip (drop 5 h))" and ne: "strip (drop 5 h) \<noteq> ?our"
    from sw have h: "h = ''sha1='' @ drop 5 h" by (rule startswith_sha1)
    have "verify_signature lib cfg raw h = compare_digest ?our (strip (drop 5 h))"
      using verify_signature_prefixed [OF assms, of lib raw "drop 5 h"] h by simp
    with a ne show "verify_signature lib cfg raw h = Inr False"
      by (auto simp: compare_digest_def isascii_hexdigest)
  qed
qed

theorem verify_signature_iff_witness:
  "WEBSUB_SECRET example_cfg \<noteq> []
   \<and> startswith (''sha1='' @ CHR '' '' # fox_hex) ''sha1=''
   \<and> strip (drop 5 (''sha1='' @ CHR '' '' # fox_hex))
       = hexdigest (hmac_sha1 fox_lib (encode_utf8 (WEBSUB_SECRET example_cfg)) fox_body)
   \<and> verify_signature fox_lib example_cfg fox_body (''sha1='' @ CHR '' '' # fox_hex) = Inr True
   \<and> \<not> startswith ''md5=00'' ''sha1=''
   \<and> verify_signature fox_lib example_cfg fox_body ''md5=00'' = Inr False
   \<and> startswith ''sha1=00'' ''sha1='' \<and> isascii (strip (drop 5 ''sha1=00''))
   \<and> strip (drop 5 ''sha1=00'')
       \<noteq> hexdigest (hmac_sha1 fox_lib (encode_utf8 (WEBSUB_SECRET example_cfg)) fox_body)
   \<and> verify_signature fox_lib example_cfg fox_body ''sha1=00'' = Inr False"
proof -
  have s: "WEBSUB_SECRET example_cfg \<noteq> []" by (simp add: example_cfg_def)
  have d: "hexdigest (hmac_sha1 fox_lib (encode_utf8 (WEBSUB_SECRET example_cfg)) fox_body) = fox_hex"
    by (simp add: fox_lib_def hexdigest_fox)
  have p1: "startswith (''sha1='' @ CHR '' '' # fox_hex) ''sha1=''"
    by (simp add: startswith_def)
  have p2: "strip (drop 5 (''sha1='' @ CHR '' '' # fox_hex)) = fox_hex"
    by (simp add: strip_def isspace_def fox_hex_def)
  have q1: "\<not> startswith ''md5=00'' ''sha1=''"
    by (simp add: startswith_def)
  have r1: "startswith ''sha1=00'' ''sha1=''"
    by (simp add: startswith_def)
  have r2: "strip (drop 5 ''sha1=00'') = ''00''"
    by (simp add: strip_def isspace_def)
  have r3: "isascii ''00''" "''00'' \<noteq> fox_hex"
    by (simp_all add: isascii_def fox_hex_def)
  note T = verify_signature_iff [OF s, of fox_lib fox_body, unfolded d]
  from T [of "''sha1='' @ CHR '' '' # fox_hex"] p1 p2
  have a: "verify_signature fox_lib example_cfg fox_body (''sha1='' @ CHR '' '' # fox_hex) = Inr True"
    by blast
  from T [of "''md5=00''"] q1
  have b: "verify_signature fox_lib example_cfg fox_body ''md5=00'' = Inr False"
    by blast
  from T [of "''sha1=00''"] r1 r2 r3
  have c: "verify_signature fox_lib example_cfg fox_body ''sha1=00'' = Inr False"
    by metis
  show ?thesis
    unfolding d using s p1 p2 a q1 b r1 r2 r3 c by simp
qed

section \<open>Properties of \<^verbatim>\<open>websub_get\<close>\<close>

lemma websub_get_status: "status (websub_get req) = 200"
  by (simp add: websub_get_def Let_def)

text \<open>
  C8, as stated: whenever the \<^verbatim>\<open>hub.challenge\<close> parameter is present the body is the
  token. This fails for a parameter that is present with the empty value
  (\<^verbatim>\<open>GET /websub?hub.challenge=\<close>): the handler tests the truth value of the token, so
  the empty token is answered with \<^verbatim>\<open>ok\<close>.
\<close>

theorem websub_get_empty_challenge_counterexample:
  "query \<lparr>query = (\<lambda>k. if k = ''hub.challenge'' then Some '''' else None),
          headers = (\<lambda>k. None), body = []\<rparr> ''hub.challenge'' = Some ''''
   \<and> websub_get \<lparr>query = (\<lambda>k. if k = ''hub.challenge'' then Some '''' else None),
                  headers = (\<lambda>k. None), body = []\<rparr>
       = \<lparr>status = 200, body_text = Some ''ok''\<rparr>
   \<and> Some ''ok'' \<noteq> Some ''''"
  by (simp add: websub_get_def)

text \<open>
  C8, amended: for every GET request the status is 200; when the \<^verbatim>\<open>hub.challenge\<close>
  parameter is present and not empty the body is exactly that token; when it is absent
  or empty the body is \<^verbatim>\<open>ok\<close>.
\<close>

theorem websub_get_challenge:
  "status (websub_get req) = 200
   \<and> (\<forall>c. query req ''hub.challenge'' = Some c \<and> c \<noteq> [] \<longrightarrow>
          websub_get req = \<lparr>status = 200, body_text = Some c\<rparr>)
   \<and> (query req ''hub.challenge'' = None \<or> query req ''hub.challenge'' = Some [] \<longrightarrow>
          websub_get req = \<lparr>status = 200, body_text = Some ''ok''\<rparr>)"
  by (auto simp add: websub_get_def Let_def)

theorem websub_get_challenge_witness:
  "query \<lparr>query = (\<lambda>k. if k = ''hub.challenge'' then Some ''xyz789'' else None),
          headers = (\<lambda>k. None), body = []\<rparr> ''hub.challenge'' = Some ''xyz789''
   \<and> websub_get \<lparr>query = (\<lambda>k. if k = ''hub.challenge'' then Some ''xyz789'' else None),
                  headers = (\<lambda>k. None), body = []\<rparr>
       = \<lparr>status = 200, body_text = Some ''xyz789''\<rparr>
   \<and> query \<lparr>query = (\<lambda>k. None), headers = (\<lambda>k. None), body = []\<rparr> ''hub.challenge'' = None
   \<and> websub_get \<lparr>query = (\<lambda>k. None), headers = (\<lambda>k. None), body = []\<rparr>
       = \<lparr>status = 200, body_text = Some ''ok''\<rparr>"
  using websub_get_challenge
      [of "\<lparr>query = (\<lambda>k. if k = ''hub.challenge'' then Some ''xyz789'' else None),
            headers = (\<lambda>k. None), body = []\<rparr>"]
    websub_get_challenge [of "\<lparr>query = (\<lambda>k. None), headers = (\<lambda>k. None), body = []\<rparr>"]
  by simp


section \<open>Properties of \<^verbatim>\<open>parse_atom_for_video\<close>\<close>

lemma find_child_None: "find_child e t = None \<longleftrightarrow> (\<forall>c \<in> set (elem_children e). elem_tag c \<noteq> t)"
  by (auto simp add: find_child_def find_None_iff)

lemma parse_root:
  assumes "ET_fromstring lib atom_xml = Inr root"
    and "find_child root (qname atom_ns ''entry'') = None"
  shows "parse_atom_for_video lib atom_xml = Inr None"
  using assms by (simp add: parse_atom_for_video_def)

lemma parse_entry:
  assumes "ET_fromstring lib atom_xml = Inr root"
    and "find_child root (qname atom_ns ''entry'') = Some entry"
  shows "parse_atom_for_video lib atom_xml =
    (let video_id = (case find_child entry (qname yt_ns ''videoId'') of Some el \<Rightarrow> elem_text el | None \<Rightarrow> None);
         title = (case find_child entry (qname atom_ns ''title'') of Some el \<Rightarrow> elem_text el | None \<Rightarrow> Some ''(no title)'');
         link0 = (case find_child entry (qname atom_ns ''link'') of Some el \<Rightarrow> map_of (elem_attrib el) ''href'' | None \<Rightarrow> None)
     in (case video_id of
           None \<Rightarrow> Inr None
         | Some v \<Rightarrow>
             if v = [] then Inr None
             else Inr (Some (v, title,
                             if truthy link0 then link0
                             else Some (''https://www.youtube.com/watch?v='' @ v)))))"
  using assms by (auto simp add: parse_atom_for_video_def Let_def split: option.splits)

text \<open>
  C5: for every well-formed document (one \<^verbatim>\<open>ET.fromstring\<close> parses) whose root has no
  entry child, and for every well-formed document whose entry has no video-id child,
  \<^verbatim>\<open>parse_atom_for_video\<close> returns \<^verbatim>\<open>None\<close> as a normal result, not an exception.
\<close>

theorem parse_absent:
  assumes "ET_fromstring lib atom_xml = Inr root"
  shows "((\<forall>c \<in> set (elem_children root). elem_tag c \<noteq> qname atom_ns ''entry'')
            \<longrightarrow> parse_atom_for_video lib atom_xml = Inr None)
       \<and> (\<forall>entry. find_child root (qname atom_ns ''entry'') = Some entry
              \<and> (\<forall>c \<in> set (elem_children entry). elem_tag c \<noteq> qname yt_ns ''videoId'')
            \<longrightarrow> parse_atom_for_video lib atom_xml = Inr None)"
proof (intro conjI impI allI)
  assume "\<forall>c \<in> set (elem_children root). elem_tag c \<noteq> qname atom_ns ''entry''"
  then have "find_child root (qname atom_ns ''entry'') = None" by (simp add: find_child_None)
  with assms show "parse_atom_for_video lib atom_xml = Inr None" by (rule parse_root)
next
  fix entry
  assume a: "find_child root (qname atom_ns ''entry'') = Some entry
     \<and> (\<forall>c \<in> set (elem_children entry). elem_tag c \<noteq> qname yt_ns ''videoId'')"
  then have "find_child entry (qname yt_ns ''videoId'') = None" by (simp add: find_child_None)
  with a show "parse_atom_for_video lib atom_xml = Inr None"
    by (simp add: parse_entry [OF assms])
qed

text \<open>
  C6: for every well-formed document whose entry has the non-empty video id \<open>v\<close> (for
  instance \<^verbatim>\<open>abc123\<close>) and no explicit link (no link element, or a link element
  without an \<^verbatim>\<open>href\<close> attribute), the returned link is
  \<^verbatim>\<open>https://www.youtube.com/watch?v=\<close> followed by \<open>v\<close>.
\<close>

theorem parse_default_link:
  assumes "ET_fromstring lib atom_xml = Inr root"
    and "find_child root (qname atom_ns ''entry'') = Some entry"
    and "find_child entry (qname yt_ns ''videoId'') = Some id_el"
    and "elem_text id_el = Some v" and "v \<noteq> []"
    and "find_child entry (qname atom_ns ''link'') = None
         \<or> (\<exists>l. find_child entry (qname atom_ns ''link'') = Some l
                 \<and> map_of (elem_attrib l) ''href'' = None)"
  shows "\<exists>title. parse_atom_for_video lib atom_xml =
           Inr (Some (v, title, Some (''https://www.youtube.com/watch?v='' @ v)))"
  using assms(3-6) by (auto simp add: parse_entry [OF assms(1,2)])

text \<open>
  C10: for every well-formed document whose entry has a video-id element with no text or
  with empty text, \<^verbatim>\<open>parse_atom_for_video\<close> returns \<^verbatim>\<open>None\<close>, as it does when the
  element is missing; the id of a returned tuple is never empty.
\<close>

theorem parse_empty_id:
  assumes "ET_fromstring lib atom_xml = Inr root"
    and "find_child root (qname atom_ns ''entry'') = Some entry"
  shows "(\<forall>id_el. find_child entry (qname yt_ns ''videoId'') = Some id_el
             \<and> (elem_text id_el = None \<or> elem_text id_el = Some [])
           \<longrightarrow> parse_atom_for_video lib atom_xml = Inr None)
       \<and> (find_child entry (qname yt_ns ''videoId'') = None
           \<longrightarrow> parse_atom_for_video lib atom_xml = Inr None)
       \<and> (\<forall>v title link. parse_atom_for_video lib atom_xml = Inr (Some (v, title, link))
           \<longrightarrow> v \<noteq> [])"
  by (auto simp add: parse_entry [OF assms] Let_def split: option.splits if_splits)

text \<open>
  The placeholder: when the entry has no title element, the returned title is
  \<^verbatim>\<open>(no title)\<close>.
\<close>

lemma parse_title_absent:
  assumes "ET_fromstring lib atom_xml = Inr root"
    and "find_child root (qname atom_ns ''entry'') = Some entry"
    and "find_child entry (qname atom_ns ''title'') = None"
    and "parse_atom_for_video lib atom_xml = Inr (Some (v, title, link))"
  shows "title = Some ''(no title)''"
  using assms(3,4) by (auto simp add: parse_entry [OF assms(1,2)] Let_def split: option.splits if_splits)


lemma parsing_fromstring: "ET_fromstring (lib_parsing doc root) doc = Inr root"
  by (simp add: lib_parsing_def)

lemmas example_tags = qname_def atom_ns_def yt_ns_def feed_root_def entry_el_def
  video_id_el_def title_el_def link_el_def find_child_def

theorem parse_absent_witness:
  "ET_fromstring (lib_parsing doc_empty root_empty) doc_empty = Inr root_empty
   \<and> elem_children root_empty = []
   \<and> parse_atom_for_video (lib_parsing doc_empty root_empty) doc_empty = Inr None
   \<and> ET_fromstring (lib_parsing doc_no_id (feed_root [entry_no_id])) doc_no_id
       = Inr (feed_root [entry_no_id])
   \<and> find_child (feed_root [entry_no_id]) (qname atom_ns ''entry'') = Some entry_no_id
   \<and> map elem_tag (elem_children entry_no_id) = [qname atom_ns ''title'']
   \<and> parse_atom_for_video (lib_parsing doc_no_id (feed_root [entry_no_id])) doc_no_id = Inr None"
proof -
  have a: "\<forall>c \<in> set (elem_children root_empty). elem_tag c \<noteq> qname atom_ns ''entry''"
    by (simp add: root_empty_def feed_root_def)
  have b: "find_child (feed_root [entry_no_id]) (qname atom_ns ''entry'') = Some entry_no_id"
    by (simp add: entry_no_id_def example_tags)
  have c: "\<forall>c \<in> set (elem_children entry_no_id). elem_tag c \<noteq> qname yt_ns ''videoId''"
    by (simp add: entry_no_id_def example_tags)
  from parse_absent [OF parsing_fromstring [of doc_empty root_empty]] a
  have d: "parse_atom_for_video (lib_parsing doc_empty root_empty) doc_empty = Inr None"
    by blast
  from parse_absent [OF parsing_fromstring [of doc_no_id "feed_root [entry_no_id]"]] b c
  have e: "parse_atom_for_video (lib_parsing doc_no_id (feed_root [entry_no_id])) doc_no_id = Inr None"
    by blast
  have f: "elem_children root_empty = []"
    by (simp add: root_empty_def feed_root_def)
  have g: "map elem_tag (elem_children entry_no_id) = [qname atom_ns ''title'']"
    by (simp add: entry_no_id_def entry_el_def title_el_def)
  show ?thesis using b d e f g parsing_fromstring by simp
qed

theorem parse_default_link_witness:
  "parse_atom_for_video (lib_parsing doc_no_link (feed_root [entry_no_link])) doc_no_link
     = Inr (Some (''abc123'', Some ''Hello'', Some ''https://www.youtube.com/watch?v=abc123''))
   \<and> parse_atom_for_video (lib_parsing doc_no_href (feed_root [entry_no_href])) doc_no_href
     = Inr (Some (''abc123'', Some ''(no title)'', Some ''https://www.youtube.com/watch?v=abc123''))"
proof -
  have e1: "find_child (feed_root [entry_no_link]) (qname atom_ns ''entry'') = Some entry_no_link"
    by (simp add: entry_no_link_def example_tags)
  have i1: "find_child entry_no_link (qname yt_ns ''videoId'') = Some (video_id_el (Some ''abc123''))"
    by (simp add: entry_no_link_def example_tags)
  have l1: "find_child entry_no_link (qname atom_ns ''link'') = None"
    by (simp add: entry_no_link_def example_tags)
  have t: "elem_text (video_id_el (Some ''abc123'')) = Some ''abc123''" "''abc123'' \<noteq> []"
    by (simp_all add: video_id_el_def)
  from parse_default_link [OF parsing_fromstring e1 i1 t disjI1 [OF l1]]
  obtain title1 where p1:
    "parse_atom_for_video (lib_parsing doc_no_link (feed_root [entry_no_link])) doc_no_link
       = Inr (Some (''abc123'', title1, Some (''https://www.youtube.com/watch?v='' @ ''abc123'')))"
    by blast
  have e2: "find_child (feed_root [entry_no_href]) (qname atom_ns ''entry'') = Some entry_no_href"
    by (simp add: entry_no_href_def example_tags)
  have i2: "find_child entry_no_href (qname yt_ns ''videoId'') = Some (video_id_el (Some ''abc123''))"
    by (simp add: entry_no_href_def example_tags)
  have l2: "\<exists>l. find_child entry_no_href (qname atom_ns ''link'') = Some l
                \<and> map_of (elem_attrib l) ''href'' = None"
    by (simp add: entry_no_href_def example_tags)
  from parse_default_link [OF parsing_fromstring e2 i2 t disjI2 [OF l2]]
  obtain title2 where p2:
    "parse_atom_for_video (lib_parsing doc_no_href (feed_root [entry_no_href])) doc_no_href
       = Inr (Some (''abc123'', title2, Some (''https://www.youtube.com/watch?v='' @ ''abc123'')))"
    by blast
  have t1: "title1 = Some ''Hello''"
    using p1 unfolding parse_entry [OF parsing_fromstring e1]
    by (simp add: entry_no_link_def example_tags)
  have t2: "title2 = Some ''(no title)''"
    using p2 unfolding parse_entry [OF parsing_fromstring e2]
    by (simp add: entry_no_href_def example_tags)
  show ?thesis using p1 p2 t1 t2 by simp
qed

theorem parse_empty_id_witness:
  "find_child entry_empty_id (qname yt_ns ''videoId'') = Some (video_id_el None)
   \<and> elem_text (video_id_el None) = None
   \<and> parse_atom_for_video (lib_parsing doc_empty_id (feed_root [entry_empty_id])) doc_empty_id = Inr None
   \<and> find_child entry_no_id (qname yt_ns ''videoId'') = None
   \<and> parse_atom_for_video (lib_parsing doc_no_id (feed_root [entry_no_id])) doc_no_id = Inr None
   \<and> parse_atom_for_video (lib_parsing doc_no_link (feed_root [entry_no_link])) doc_no_link
       = Inr (Some (''abc123'', Some ''Hello'', Some ''https://www.youtube.com/watch?v=abc123''))
   \<and> ''abc123'' \<noteq> []"
proof -
  have e1: "find_child (feed_root [entry_empty_id]) (qname atom_ns ''entry'') = Some entry_empty_id"
    by (simp add: entry_empty_id_def example_tags)
  have i1: "find_child entry_empty_id (qname yt_ns ''videoId'') = Some (video_id_el None)"
    by (simp add: entry_empty_id_def example_tags)
  have t1: "elem_text (video_id_el None) = None"
    by (simp add: video_id_el_def)
  from parse_empty_id [OF parsing_fromstring e1] i1 t1
  have p1: "parse_atom_for_video (lib_parsing doc_empty_id (feed_root [entry_empty_id])) doc_empty_id = Inr None"
    by blast
  have e2: "find_child (feed_root [entry_no_id]) (qname atom_ns ''entry'') = Some entry_no_id"
    by (simp add: entry_no_id_def example_tags)
  have i2: "find_child entry_no_id (qname yt_ns ''videoId'') = None"
    by (simp add: entry_no_id_def example_tags)
  from parse_empty_id [OF parsing_fromstring e2] i2
  have p2: "parse_atom_for_video (lib_parsing doc_no_id (feed_root [entry_no_id])) doc_no_id = Inr None"
    by blast
  have e3: "find_child (feed_root [entry_no_link]) (qname atom_ns ''entry'') = Some entry_no_link"
    by (simp add: entry_no_link_def example_tags)
  have p3: "parse_atom_for_video (lib_parsing doc_no_link (feed_root [entry_no_link])) doc_no_link
       = Inr (Some (''abc123'', Some ''Hello'', Some ''https://www.youtube.com/watch?v=abc123''))"
    unfolding parse_entry [OF parsing_fromstring e3]
    by (simp add: entry_no_link_def example_tags)
  from parse_empty_id [OF parsing_fromstring e3] p3
  have n3: "''abc123'' \<noteq> []" by blast
  show ?thesis using i1 t1 p1 i2 p2 p3 n3 by simp
qed

text \<open>
  C7 says that the returned title is never empty. For an entry whose title element is
  present and empty (\<^verbatim>\<open><title/>\<close>) the function returns the element's text, which is
  \<^verbatim>\<open>None\<close>: the placeholder is substituted only when the element is missing.
\<close>

theorem parse_empty_title:
  "parse_atom_for_video (lib_parsing doc_empty_title (feed_root [entry_empty_title])) doc_empty_title
     = Inr (Some (''abc123'', None, Some ''https://www.youtube.com/watch?v=abc123''))"
proof -
  have e: "find_child (feed_root [entry_empty_title]) (qname atom_ns ''entry'') = Some entry_empty_title"
    by (simp add: entry_empty_title_def example_tags)
  show ?thesis
    unfolding parse_entry [OF parsing_fromstring e]
    by (simp add: entry_empty_title_def example_tags)
qed

section \<open>Properties of \<^verbatim>\<open>announce_video\<close>\<close>

lemma announce_video_seen:
  "video_id \<in> seen \<Longrightarrow> announce_video client cfg video_id title link seen = (Inr (), [], seen)"
  by (simp add: announce_video_def)

lemma announce_video_new:
  assumes "video_id \<notin> seen"
  shows "\<exists>r es. announce_video client cfg video_id title link seen
                  = (r, Seen_add video_id # es, insert video_id seen)
               \<and> es \<noteq> [] \<and> (\<forall>y. Seen_add y \<notin> set es)"
  using assms by (auto simp add: announce_video_def Let_def split: option.splits sum.splits)

lemma announce_video_dispatch:
  assumes "video_id \<notin> seen"
  shows "\<exists>r es. announce_video client cfg video_id title link seen
                  = (r, Seen_add video_id # es, insert video_id seen)
           \<and> ((\<exists>ch. (get_channel client (DISCORD_CHANNEL_ID cfg) = Some ch
                         \<and> es = [Send ch (announcement title link)]
                       \<or> get_channel client (DISCORD_CHANNEL_ID cfg) = None
                         \<and> fetch_channel client (DISCORD_CHANNEL_ID cfg) = Inr ch
                         \<and> es = [Fetch_channel (DISCORD_CHANNEL_ID cfg),
                                  Send ch (announcement title link)])
                     \<and> r = send client ch (announcement title link))
               \<or> (\<exists>e. get_channel client (DISCORD_CHANNEL_ID cfg) = None
                       \<and> fetch_channel client (DISCORD_CHANNEL_ID cfg) = Inl e
                       \<and> es = [Fetch_channel (DISCORD_CHANNEL_ID cfg)] \<and> r = Inl e))"
  using assms by (auto simp add: announce_video_def Let_def split: option.splits sum.splits)

lemma announce_video_grows:
  "announce_video client cfg video_id title link seen = (r, es, seen') \<Longrightarrow> seen' = insert video_id seen"
  by (auto simp add: announce_video_def Let_def split: if_splits option.splits sum.splits)

lemma announce_video_sends:
  "announce_video client cfg video_id title link seen = (r, es, seen') \<Longrightarrow>
     length (filter is_send es) \<le> 1"
  by (auto simp add: announce_video_def Let_def is_send_def split: if_splits option.splits sum.splits)

lemma announce_all_ids:
  "announce_all cfg cs S = (log, S') \<Longrightarrow> map fst log = map call_id cs \<and> S' = S \<union> set (map call_id cs)"
proof (induction cs arbitrary: S log S')
  case Nil
  then show ?case by simp
next
  case (Cons c cs)
  obtain client v t l where c: "c = (client, v, t, l)" by (cases c) auto
  obtain r es S1 where a: "announce_video client cfg v t l S = (r, es, S1)"
    by (cases "announce_video client cfg v t l S") auto
  obtain log1 S2 where b: "announce_all cfg cs S1 = (log1, S2)"
    by (cases "announce_all cfg cs S1") auto
  from Cons.prems c a b have l: "log = (v, es) # log1" and s: "S' = S2" by auto
  have S1: "S1 = insert v S"
  proof (cases "v \<in> S")
    case True
    with a show ?thesis by (auto simp: announce_video_seen)
  next
    case False
    from announce_video_new [OF False, of client cfg t l] a show ?thesis by auto
  qed
  from Cons.IH [OF b] l s S1 c show ?case by (auto simp: call_id_def)
qed

lemma announce_all_accepted:
  "announce_all cfg cs S = (log, S') \<Longrightarrow>
     length (filter (accepted x) log) = (if x \<in> set (map call_id cs) \<and> x \<notin> S then 1 else 0)
   \<and> count_list (concat (map snd log)) (Seen_add x)
       = (if x \<in> set (map call_id cs) \<and> x \<notin> S then 1 else 0)"
proof (induction cs arbitrary: S log S')
  case Nil
  then show ?case by simp
next
  case (Cons c cs)
  obtain client v t l where c: "c = (client, v, t, l)" by (cases c) auto
  obtain r es S1 where a: "announce_video client cfg v t l S = (r, es, S1)"
    by (cases "announce_video client cfg v t l S") auto
  obtain log1 S2 where b: "announce_all cfg cs S1 = (log1, S2)"
    by (cases "announce_all cfg cs S1") auto
  from Cons.prems c a b have l: "log = (v, es) # log1" by auto
  note IH = Cons.IH [OF b]
  show ?case
  proof (cases "v \<in> S")
    case True
    with a have "es = []" "S1 = S" by (auto simp: announce_video_seen)
    with IH l c True show ?thesis by (auto simp: call_id_def accepted_def)
  next
    case False
    from announce_video_new [OF False, of client cfg t l] a
    obtain ds where es: "es = Seen_add v # ds" "ds \<noteq> []" "\<forall>y. Seen_add y \<notin> set ds"
      and S1: "S1 = insert v S" by auto
    from es have cnt: "count_list ds (Seen_add x) = 0" by (simp add: count_list_0_iff)
    from IH l c False es S1 cnt show ?thesis by (auto simp: call_id_def accepted_def)
  qed
qed

lemma announce_all_nth:
  "announce_all cfg cs S = (log, S') \<Longrightarrow> i < length cs \<Longrightarrow>
     (snd (log ! i) = [] \<longleftrightarrow> call_id (cs ! i) \<in> S \<union> set (map call_id (take i cs)))"
proof (induction cs arbitrary: S log S' i)
  case Nil
  then show ?case by simp
next
  case (Cons c cs)
  obtain client v t l where c: "c = (client, v, t, l)" by (cases c) auto
  obtain r es S1 where a: "announce_video client cfg v t l S = (r, es, S1)"
    by (cases "announce_video client cfg v t l S") auto
  obtain log1 S2 where b: "announce_all cfg cs S1 = (log1, S2)"
    by (cases "announce_all cfg cs S1") auto
  from Cons.prems(1) c a b have l: "log = (v, es) # log1" by auto
  have S1: "S1 = insert v S" and es: "es = [] \<longleftrightarrow> v \<in> S"
  proof -
    show "S1 = insert v S"
    proof (cases "v \<in> S")
      case True with a show ?thesis by (auto simp: announce_video_seen)
    next
      case False
      from announce_video_new [OF False, of client cfg t l] a show ?thesis by auto
    qed
    show "es = [] \<longleftrightarrow> v \<in> S"
    proof (cases "v \<in> S")
      case True with a show ?thesis by (auto simp: announce_video_seen)
    next
      case False
      from announce_video_new [OF False, of client cfg t l] a False show ?thesis by auto
    qed
  qed
  show ?case
  proof (cases i)
    case 0
    with l es c show ?thesis by (simp add: call_id_def)
  next
    case (Suc j)
    with Cons.prems(2) have j: "j < length cs" by simp
    from Cons.IH [OF b j] Suc l S1 c show ?thesis by (auto simp: call_id_def)
  qed
qed

lemma announce_all_sends:
  "announce_all cfg cs S = (log, S') \<Longrightarrow>
     sends_for x log \<le> (if x \<in> set (map call_id cs) \<and> x \<notin> S then 1 else 0)"
proof (induction cs arbitrary: S log S')
  case Nil
  then show ?case by (simp add: sends_for_def)
next
  case (Cons c cs)
  obtain client v t l where c: "c = (client, v, t, l)" by (cases c) auto
  obtain r es S1 where a: "announce_video client cfg v t l S = (r, es, S1)"
    by (cases "announce_video client cfg v t l S") auto
  obtain log1 S2 where b: "announce_all cfg cs S1 = (log1, S2)"
    by (cases "announce_all cfg cs S1") auto
  from Cons.prems c a b have l: "log = (v, es) # log1" by auto
  note IH = Cons.IH [OF b]
  have S1: "S1 = insert v S" using a by (rule announce_video_grows)
  have one: "length (filter is_send es) \<le> 1" using a by (rule announce_video_sends)
  show ?case
  proof (cases "v \<in> S")
    case True
    with a have "es = []" by (auto simp: announce_video_seen)
    with IH l c True S1 show ?thesis by (auto simp: call_id_def sends_for_def split: if_splits)
  next
    case False
    show ?thesis
    proof (cases "v = x")
      case True
      with IH S1 have "sends_for x log1 = 0" by simp
      with l True one c False show ?thesis by (simp add: sends_for_def call_id_def)
    next
      case ne: False
      with l have "sends_for x log = sends_for x log1" by (simp add: sends_for_def)
      with IH S1 ne c show ?thesis by (auto simp: call_id_def split: if_splits)
    qed
  qed
qed


text \<open>
  C1: a call with an id that is not in the set inserts the id and then dispatches: it
  sends the announcement once, to the cached channel or to the channel it has looked up,
  and sends nothing only when the lookup raises. A call with an id already in the set
  returns without any effect. Over any sequence of calls starting from the empty set, a
  call is rejected exactly when an earlier call of the sequence had the same id; for
  each id at most one call passes the test, at most one send is attempted, and the id is
  inserted at most once.
\<close>

theorem announce_video_once:
  "(video_id \<notin> seen \<longrightarrow>
      (\<exists>r es. announce_video client cfg video_id title link seen
                 = (r, Seen_add video_id # es, insert video_id seen)
           \<and> ((\<exists>ch. (get_channel client (DISCORD_CHANNEL_ID cfg) = Some ch
                         \<and> es = [Send ch (announcement title link)]
                       \<or> get_channel client (DISCORD_CHANNEL_ID cfg) = None
                         \<and> fetch_channel client (DISCORD_CHANNEL_ID cfg) = Inr ch
                         \<and> es = [Fetch_channel (DISCORD_CHANNEL_ID cfg),
                                  Send ch (announcement title link)])
                     \<and> r = send client ch (announcement title link))
               \<or> (\<exists>e. get_channel client (DISCORD_CHANNEL_ID cfg) = None
                       \<and> fetch_channel client (DISCORD_CHANNEL_ID cfg) = Inl e
                       \<and> es = [Fetch_channel (DISCORD_CHANNEL_ID cfg)] \<and> r = Inl e))))
   \<and> (video_id \<in> seen \<longrightarrow>
        announce_video client cfg video_id title link seen = (Inr (), [], seen))
   \<and> (\<forall>log seen'. announce_all cfg calls {} = (log, seen') \<longrightarrow>
        (\<forall>i < length calls.
            snd (log ! i) = [] \<longleftrightarrow> call_id (calls ! i) \<in> set (map call_id (take i calls)))
        \<and> (\<forall>x. length (filter (accepted x) log) \<le> 1
                \<and> sends_for x log \<le> 1
                \<and> count_list (concat (map snd log)) (Seen_add x) \<le> 1))"
proof (intro conjI impI allI)
  assume "video_id \<notin> seen"
  then show "\<exists>r es. announce_video client cfg video_id title link seen
                 = (r, Seen_add video_id # es, insert video_id seen)
           \<and> ((\<exists>ch. (get_channel client (DISCORD_CHANNEL_ID cfg) = Some ch
                         \<and> es = [Send ch (announcement title link)]
                       \<or> get_channel client (DISCORD_CHANNEL_ID cfg) = None
                         \<and> fetch_channel client (DISCORD_CHANNEL_ID cfg) = Inr ch
                         \<and> es = [Fetch_channel (DISCORD_CHANNEL_ID cfg),
                                  Send ch (announcement title link)])
                     \<and> r = send client ch (announcement title link))
               \<or> (\<exists>e. get_channel client (DISCORD_CHANNEL_ID cfg) = None
                       \<and> fetch_channel client (DISCORD_CHANNEL_ID cfg) = Inl e
                       \<and> es = [Fetch_channel (DISCORD_CHANNEL_ID cfg)] \<and> r = Inl e))"
    by (rule announce_video_dispatch)
next
  assume "video_id \<in> seen"
  then show "announce_video client cfg video_id title link seen = (Inr (), [], seen)"
    by (rule announce_video_seen)
next
  fix log seen' i
  assume "announce_all cfg calls {} = (log, seen')" "i < length calls"
  from announce_all_nth [OF this]
  show "snd (log ! i) = [] \<longleftrightarrow> call_id (calls ! i) \<in> set (map call_id (take i calls))"
    by simp
next
  fix log seen' x
  assume "announce_all cfg calls {} = (log, seen')"
  from announce_all_accepted [OF this, of x] show "length (filter (accepted x) log) \<le> 1"
    by (simp split: if_splits)
next
  fix log seen' x
  assume "announce_all cfg calls {} = (log, seen')"
  from announce_all_sends [OF this, of x] show "sends_for x log \<le> 1"
    by (simp split: if_splits)
next
  fix log seen' x
  assume "announce_all cfg calls {} = (log, seen')"
  from announce_all_accepted [OF this, of x]
  show "count_list (concat (map snd log)) (Seen_add x) \<le> 1"
    by (simp split: if_splits)
qed

lemma example_calls_log:
  "announce_all example_cfg example_calls {} =
     ([(''v1'', [Seen_add ''v1'', Send 7 hello_msg]),
       (''v1'', []),
       (''v2'', [Seen_add ''v2'', Fetch_channel 1, Send 7 world_msg])],
      {''v1'', ''v2''})"
  by (simp add: example_calls_def announce_video_def ok_client_def uncached_client_def
      example_cfg_def hello_msg_def world_msg_def insert_commute)

theorem announce_video_once_witness:
  "announce_video ok_client example_cfg ''v1'' (Some ''Hello'') (Some ''https://example.com/v1'') {}
     = (Inr (), [Seen_add ''v1'', Send 7 hello_msg], {''v1''})
   \<and> announce_video uncached_client example_cfg ''v2'' (Some ''World'') (Some ''https://example.com/v2'') {''v1''}
     = (Inr (), [Seen_add ''v2'', Fetch_channel 1, Send 7 world_msg], {''v1'', ''v2''})
   \<and> announce_video unreachable_client example_cfg ''v2'' (Some ''World'') (Some ''https://example.com/v2'') {''v1''}
     = (Inl DiscordException, [Seen_add ''v2'', Fetch_channel 1], {''v1'', ''v2''})
   \<and> announce_video ok_client example_cfg ''v1'' (Some ''Hello'') (Some ''https://example.com/v1'') {''v1''}
     = (Inr (), [], {''v1''})
   \<and> snd (fst (announce_all example_cfg example_calls {}) ! 1) = []
   \<and> length (filter (accepted ''v1'') (fst (announce_all example_cfg example_calls {}))) = 1
   \<and> sends_for ''v1'' (fst (announce_all example_cfg example_calls {})) = 1
   \<and> count_list (concat (map snd (fst (announce_all example_cfg example_calls {})))) (Seen_add ''v1'') = 1"
proof -
  note T = announce_video_once [of _ _ _ example_cfg _ _ example_calls]
  have n1: "''v1'' \<notin> ({} :: string set)" and n2: "''v2'' \<notin> {''v1''}" by simp_all
  have g1: "get_channel ok_client (DISCORD_CHANNEL_ID example_cfg) = Some 7"
    and s1: "send ok_client 7 hello_msg = Inr ()"
    and g2: "get_channel uncached_client (DISCORD_CHANNEL_ID example_cfg) = None"
    and f2: "fetch_channel uncached_client (DISCORD_CHANNEL_ID example_cfg) = Inr 7"
    and s2: "send uncached_client 7 world_msg = Inr ()"
    and g3: "get_channel unreachable_client (DISCORD_CHANNEL_ID example_cfg) = None"
    and f3: "fetch_channel unreachable_client (DISCORD_CHANNEL_ID example_cfg) = Inl DiscordException"
    and c: "DISCORD_CHANNEL_ID example_cfg = 1"
    by (simp_all add: ok_client_def uncached_client_def unreachable_client_def example_cfg_def)
  from T [of "''v1''" "{}" ok_client "Some ''Hello''" "Some ''https://example.com/v1''"] n1 g1 s1
  have a: "announce_video ok_client example_cfg ''v1'' (Some ''Hello'') (Some ''https://example.com/v1'') {}
     = (Inr (), [Seen_add ''v1'', Send 7 hello_msg], {''v1''})"
    by (auto simp add: hello_msg_def)
  from T [of "''v2''" "{''v1''}" uncached_client "Some ''World''" "Some ''https://example.com/v2''"]
    n2 g2 f2 s2 c
  have b: "announce_video uncached_client example_cfg ''v2'' (Some ''World'') (Some ''https://example.com/v2'') {''v1''}
     = (Inr (), [Seen_add ''v2'', Fetch_channel 1, Send 7 world_msg], {''v1'', ''v2''})"
    by (auto simp add: world_msg_def insert_commute)
  from T [of "''v2''" "{''v1''}" unreachable_client "Some ''World''" "Some ''https://example.com/v2''"]
    n2 g3 f3 c
  have b': "announce_video unreachable_client example_cfg ''v2'' (Some ''World'') (Some ''https://example.com/v2'') {''v1''}
     = (Inl DiscordException, [Seen_add ''v2'', Fetch_channel 1], {''v1'', ''v2''})"
    by (auto simp add: insert_commute)
  from T [of "''v1''" "{''v1''}" ok_client "Some ''Hello''" "Some ''https://example.com/v1''"]
  have d: "announce_video ok_client example_cfg ''v1'' (Some ''Hello'') (Some ''https://example.com/v1'') {''v1''}
     = (Inr (), [], {''v1''})" by simp
  have e: "snd (fst (announce_all example_cfg example_calls {}) ! 1) = []"
    and f: "length (filter (accepted ''v1'') (fst (announce_all example_cfg example_calls {}))) = 1"
    and g: "sends_for ''v1'' (fst (announce_all example_cfg example_calls {})) = 1"
    and h: "count_list (concat (map snd (fst (announce_all example_cfg example_calls {})))) (Seen_add ''v1'') = 1"
    by (simp_all add: example_calls_log accepted_def sends_for_def is_send_def)
  from a b b' d e f g h show ?thesis by simp
qed

text \<open>
  C4: when a call for a new id raises (the channel lookup or the send fails), the id is
  in the set afterwards; the insertion is the first effect of the call, before any send;
  the call makes at most one send attempt; and after any further calls, a call with the
  same id returns without any effect, whatever the Discord client would answer.
\<close>

theorem announce_video_failure:
  assumes "video_id \<notin> seen"
    and "announce_video client cfg video_id title link seen = (Inl e, es, seen')"
  shows "seen' = insert video_id seen
       \<and> (\<exists>ds. es = Seen_add video_id # ds \<and> ds \<noteq> [] \<and> (\<forall>y. Seen_add y \<notin> set ds))
       \<and> length (filter is_send es) \<le> 1
       \<and> (\<forall>calls client' title' link'.
            announce_video client' cfg video_id title' link'
                (snd (announce_all cfg calls seen'))
              = (Inr (), [], snd (announce_all cfg calls seen')))"
proof (intro conjI allI)
  show s: "seen' = insert video_id seen" using assms(2) by (rule announce_video_grows)
  from announce_video_new [OF assms(1), of client cfg title link] assms(2)
  show "\<exists>ds. es = Seen_add video_id # ds \<and> ds \<noteq> [] \<and> (\<forall>y. Seen_add y \<notin> set ds)"
    by auto
  show "length (filter is_send es) \<le> 1" using assms(2) by (rule announce_video_sends)
  fix calls client' title' link'
  obtain log S where a: "announce_all cfg calls seen' = (log, S)"
    by (cases "announce_all cfg calls seen'") auto
  from announce_all_ids [OF a] s have "video_id \<in> S" by simp
  then show "announce_video client' cfg video_id title' link' (snd (announce_all cfg calls seen'))
              = (Inr (), [], snd (announce_all cfg calls seen'))"
    using a by (simp add: announce_video_seen)
qed

theorem announce_video_failure_witness:
  "announce_video unreachable_client example_cfg ''v1'' (Some ''Hello'') (Some ''https://example.com/v1'') {}
     = (Inl DiscordException, [Seen_add ''v1'', Fetch_channel 1], {''v1''})
   \<and> announce_video rejecting_client example_cfg ''v1'' (Some ''Hello'') (Some ''https://example.com/v1'') {}
     = (Inl DiscordException, [Seen_add ''v1'', Send 7 hello_msg], {''v1''})
   \<and> announce_video ok_client example_cfg ''v1'' (Some ''Hello'') (Some ''https://example.com/v1'')
        (snd (announce_all example_cfg [] {''v1''}))
     = (Inr (), [], {''v1''})"
proof -
  have n: "''v1'' \<notin> ({} :: string set)" by simp
  have a: "announce_video unreachable_client example_cfg ''v1'' (Some ''Hello'')
             (Some ''https://example.com/v1'') {}
     = (Inl DiscordException, [Seen_add ''v1'', Fetch_channel 1], {''v1''})"
    by (simp add: announce_video_def unreachable_client_def example_cfg_def)
  have b: "announce_video rejecting_client example_cfg ''v1'' (Some ''Hello'')
             (Some ''https://example.com/v1'') {}
     = (Inl DiscordException, [Seen_add ''v1'', Send 7 hello_msg], {''v1''})"
    by (simp add: announce_video_def rejecting_client_def hello_msg_def)
  from announce_video_failure [OF n a]
  have "announce_video ok_client example_cfg ''v1'' (Some ''Hello'') (Some ''https://example.com/v1'')
          (snd (announce_all example_cfg [] {''v1''}))
        = (Inr (), [], snd (announce_all example_cfg [] {''v1''}))"
    by blast
  with a b show ?thesis by simp
qed

subsection \<open>Interleaved tasks\<close>

text \<open>Running one task to its end without interruption is the function itself.\<close>

lemma resume_announce_video:
  "run_tasks cfg [(0, client), (0, client), (0, client)] [Pending video_id title link] seen
     = (case announce_video client cfg video_id title link seen of
          (r, es, seen') \<Rightarrow> (map (Pair video_id) es, [Finished r], seen'))"
  by (auto simp add: resume_def announce_video_def task_id_def Let_def
      split: option.splits sum.splits)

lemma resume_mono:
  "resume client cfg t S = (t', es, S') \<Longrightarrow> S \<subseteq> S'"
  by (auto simp add: resume_def Let_def split: task_state.splits if_splits option.splits sum.splits)

lemma resume_count:
  assumes "resume client cfg t S = (t', es, S')"
  shows "x \<in> S \<Longrightarrow> count_list es (Seen_add x) = 0"
    and "x \<notin> S' \<Longrightarrow> count_list es (Seen_add x) = 0"
    and "count_list es (Seen_add x) \<le> 1"
  using assms
  by (auto simp add: resume_def Let_def split: task_state.splits if_splits option.splits sum.splits)

lemma resume_balance:
  assumes "resume client cfg t S = (t', es, S')"
  shows "sends_of x (map (Pair (task_id t)) es) + awaiting x t'
           \<le> inserts_of x (map (Pair (task_id t)) es) + awaiting x t"
  using assms
  by (auto simp add: resume_def Let_def sends_of_def inserts_of_def awaiting_def task_id_def
      is_send_def comp_def
      split: task_state.splits if_splits option.splits sum.splits)

lemma sum_list_awaiting_update:
  "i < length pool \<Longrightarrow>
     sum_list (map f (pool[i := t'])) + f (pool ! i) = sum_list (map f pool) + (f t' :: nat)"
proof (induction pool arbitrary: i)
  case Nil
  then show ?case by simp
next
  case (Cons a pool)
  then show ?case by (cases i) auto
qed


text \<open>
  Whatever the schedule and the tasks, each id is inserted into the set at most once, and
  never when it is in the set already: of the tasks that race for one id, at most one
  passes the test.
\<close>

lemma run_tasks_claims_once:
  "run_tasks cfg schedule pool S = (trace, pool', S') \<Longrightarrow>
     inserts_of x trace \<le> (if x \<in> S then 0 else 1)"
proof (induction schedule arbitrary: pool S trace pool' S')
  case Nil
  then show ?case by (simp add: inserts_of_def)
next
  case (Cons a schedule)
  obtain i client where a: "a = (i, client)" by (cases a) auto
  show ?case
  proof (cases "i < length pool")
    case False
    with Cons.prems a have "run_tasks cfg schedule pool S = (trace, pool', S')" by simp
    from Cons.IH [OF this] show ?thesis .
  next
    case True
    obtain t' es S1 where r: "resume client cfg (pool ! i) S = (t', es, S1)"
      by (cases "resume client cfg (pool ! i) S") auto
    obtain tr p2 S2 where rest: "run_tasks cfg schedule (pool[i := t']) S1 = (tr, p2, S2)"
      by (cases "run_tasks cfg schedule (pool[i := t']) S1") auto
    from Cons.prems a True r rest
    have tr: "inserts_of x trace = count_list es (Seen_add x) + inserts_of x tr"
      by (auto simp add: inserts_of_def comp_def)
    note IH = Cons.IH [OF rest]
    note R = resume_count [OF r, of x] and M = resume_mono [OF r]
    show ?thesis
    proof (cases "x \<in> S")
      case True
      with R M have "x \<in> S1" "count_list es (Seen_add x) = 0" by auto
      with IH tr True show ?thesis by simp
    next
      case False
      show ?thesis
      proof (cases "x \<in> S1")
        case True
        with IH have "inserts_of x tr = 0" by simp
        with R(3) tr False show ?thesis by simp
      next
        case x: False
        with R(2) have "count_list es (Seen_add x) = 0" by simp
        with IH x tr False show ?thesis by simp
      qed
    qed
  qed
qed

text \<open>
  A send for an id is attempted only by a task that has inserted the id, and once: the
  send attempts for an id and the tasks still suspended for it are never more than the
  insertions of the id and the tasks suspended for it at the start.
\<close>

lemma run_tasks_balance:
  "run_tasks cfg schedule pool S = (trace, pool', S') \<Longrightarrow>
     sends_of x trace + sum_list (map (awaiting x) pool')
       \<le> inserts_of x trace + sum_list (map (awaiting x) pool)"
proof (induction schedule arbitrary: pool S trace pool' S')
  case Nil
  then show ?case by (simp add: sends_of_def inserts_of_def)
next
  case (Cons a schedule)
  obtain i client where a: "a = (i, client)" by (cases a) auto
  show ?case
  proof (cases "i < length pool")
    case False
    with Cons.prems a have "run_tasks cfg schedule pool S = (trace, pool', S')" by simp
    from Cons.IH [OF this] show ?thesis .
  next
    case True
    obtain t' es S1 where r: "resume client cfg (pool ! i) S = (t', es, S1)"
      by (cases "resume client cfg (pool ! i) S") auto
    obtain tr p2 S2 where rest: "run_tasks cfg schedule (pool[i := t']) S1 = (tr, p2, S2)"
      by (cases "run_tasks cfg schedule (pool[i := t']) S1") auto
    let ?es = "map (Pair (task_id (pool ! i))) es"
    from Cons.prems a True r rest have t: "trace = ?es @ tr" and p: "pool' = p2" by auto
    from t have s: "sends_of x trace = sends_of x ?es + sends_of x tr"
      and n: "inserts_of x trace = inserts_of x ?es + inserts_of x tr"
      by (simp_all add: sends_of_def inserts_of_def)
    from Cons.IH [OF rest]
    have 1: "sends_of x tr + sum_list (map (awaiting x) p2)
               \<le> inserts_of x tr + sum_list (map (awaiting x) (pool[i := t']))" .
    from resume_balance [OF r, of x]
    have 2: "sends_of x ?es + awaiting x t' \<le> inserts_of x ?es + awaiting x (pool ! i)" .
    from sum_list_awaiting_update [OF True, of "awaiting x" t']
    have 3: "sum_list (map (awaiting x) (pool[i := t'])) + awaiting x (pool ! i)
               = sum_list (map (awaiting x) pool) + awaiting x t'" .
    from 1 2 3 s n show ?thesis unfolding p by linarith
  qed
qed

text \<open>
  From the empty set and pending tasks, under every schedule: at most one insertion and
  at most one send attempt for each id.
\<close>

lemma run_tasks_sends_once:
  assumes "run_tasks cfg schedule pool {} = (trace, pool', S')"
    and "\<forall>t \<in> set pool. \<exists>video_id title link. t = Pending video_id title link"
  shows "inserts_of x trace \<le> 1" and "sends_of x trace \<le> 1"
proof -
  from run_tasks_claims_once [OF assms(1), of x] show i: "inserts_of x trace \<le> 1" by simp
  from assms(2) have "\<forall>t \<in> set pool. awaiting x t = 0" by (auto simp add: awaiting_def)
  then have "sum_list (map (awaiting x) pool) = 0" by simp
  with run_tasks_balance [OF assms(1), of x] i show "sends_of x trace \<le> 1" by linarith
qed

section \<open>Properties of \<^verbatim>\<open>websub_post\<close>\<close>

lemma char_of_unat_of_char: "char_of (unat (of_char c :: 8 word)) = c"
proof -
  have "(of_char c :: 8 word) = of_nat (of_char c)" by (simp only: of_nat_of_char)
  then have "unat (of_char c :: 8 word) = (of_char c :: nat) mod 2 ^ LENGTH(8)"
    by (simp only: unat_of_nat)
  then show ?thesis by simp
qed

lemma decode_ascii_bytes_of_char: "decode_ascii_bytes (map of_char s) = s"
  unfolding decode_ascii_bytes_def by (induction s) (simp_all add: char_of_unat_of_char)

lemma websub_post_raises:
  assumes "verify_signature lib cfg (body req) (signature_of req) = Inl e"
  shows "websub_post lib cfg req = (Inl e, None)"
  using assms by (simp add: websub_post_def signature_of_def)

lemma websub_post_rejected:
  assumes "verify_signature lib cfg (body req) (signature_of req) = Inr False"
  shows "websub_post lib cfg req
           = (Inr \<lparr>status = 403, body_text = Some ''Invalid signature''\<rparr>, None)"
  using assms by (simp add: websub_post_def signature_of_def)

lemma websub_post_accepted:
  assumes "verify_signature lib cfg (body req) (signature_of req) = Inr True"
    and "parse_atom_for_video lib (decode_utf8_replace lib (body req)) = Inr (Some parsed)"
  shows "websub_post lib cfg req = (Inr \<lparr>status = 204, body_text = None\<rparr>, Some parsed)"
  using assms by (simp add: websub_post_def signature_of_def)

lemma verify_signature_parser:
  "verify_signature (lib\<lparr>ET_fromstring := f, decode_utf8_replace := g\<rparr>) cfg raw sig
     = verify_signature lib cfg raw sig"
  by (simp add: verify_signature_def Let_def split: sum.splits)

text \<open>
  When \<^verbatim>\<open>_verify_signature\<close> returns \<^verbatim>\<open>False\<close> the handler answers 403 whatever the
  parser would make of the body, creates no task and leaves the set of seen ids
  unchanged, so that a later accepted push of a new id is announced.
\<close>

lemma websub_post_rejected_no_processing:
  assumes "WEBSUB_SECRET cfg \<noteq> []"
    and "verify_signature lib cfg (body req) (signature_of req) = Inr False"
  shows "websub_post (lib\<lparr>ET_fromstring := f, decode_utf8_replace := g\<rparr>) cfg req
           = (Inr \<lparr>status = 403, body_text = Some ''Invalid signature''\<rparr>, None)
       \<and> deliver lib client cfg req seen
           = (Inr \<lparr>status = 403, body_text = Some ''Invalid signature''\<rparr>, [], seen)
       \<and> (\<forall>req' video_id title link client'.
             verify_signature lib cfg (body req') (signature_of req') = Inr True
             \<and> parse_atom_for_video lib (decode_utf8_replace lib (body req'))
                 = Inr (Some (video_id, title, link))
             \<and> video_id \<notin> seen
             \<longrightarrow> (\<exists>r es. deliver lib client' cfg req'
                               (snd (snd (deliver lib client cfg req seen)))
                            = (Inr \<lparr>status = 204, body_text = None\<rparr>,
                               Seen_add video_id # es, insert video_id seen)
                          \<and> es \<noteq> []))"
proof (intro conjI allI impI)
  show "websub_post (lib\<lparr>ET_fromstring := f, decode_utf8_replace := g\<rparr>) cfg req
           = (Inr \<lparr>status = 403, body_text = Some ''Invalid signature''\<rparr>, None)"
    by (rule websub_post_rejected) (simp add: verify_signature_parser assms(2))
  show d: "deliver lib client cfg req seen
           = (Inr \<lparr>status = 403, body_text = Some ''Invalid signature''\<rparr>, [], seen)"
    by (simp add: deliver_def websub_post_rejected [OF assms(2)])
  fix req' video_id title link client'
  assume a: "verify_signature lib cfg (body req') (signature_of req') = Inr True
             \<and> parse_atom_for_video lib (decode_utf8_replace lib (body req'))
                 = Inr (Some (video_id, title, link))
             \<and> video_id \<notin> seen"
  then have p: "websub_post lib cfg req'
      = (Inr \<lparr>status = 204, body_text = None\<rparr>, Some (video_id, title, link))"
    by (simp add: websub_post_accepted)
  from a have "video_id \<notin> seen" by simp
  from announce_video_new [OF this, of client' cfg title link]
  obtain r es where "announce_video client' cfg video_id title link seen
                  = (r, Seen_add video_id # es, insert video_id seen)" "es \<noteq> []"
    by blast
  then show "\<exists>r es. deliver lib client' cfg req' (snd (snd (deliver lib client cfg req seen)))
                            = (Inr \<lparr>status = 204, body_text = None\<rparr>,
                               Seen_add video_id # es, insert video_id seen)
                          \<and> es \<noteq> []"
    unfolding d by (simp add: deliver_def p)
qed

lemma hexdigest_full: "hexdigest full_digest = full_hex"
  by (simp add: hexdigest_def hexdigit_def full_digest_def full_hex_def)

text \<open>
  An example: a push of \<open>doc_full\<close> with a wrong digest is answered with 403 and changes
  nothing; the same document pushed with its signature is answered with 204 and
  announced.
\<close>

lemma rejected_then_resent_example:
  "deliver full_lib ok_client example_cfg (push ''sha1=00'' full_body) {}
     = (Inr \<lparr>status = 403, body_text = Some ''Invalid signature''\<rparr>, [], {})
   \<and> deliver full_lib ok_client example_cfg (push (''sha1='' @ full_hex) full_body) {}
     = (Inr \<lparr>status = 204, body_text = None\<rparr>, [Seen_add ''v1'', Send 7 hello_msg], {''v1''})"
proof -
  have s: "WEBSUB_SECRET example_cfg \<noteq> []" by (simp add: example_cfg_def)
  have h: "hexdigest (hmac_sha1 full_lib (encode_utf8 (WEBSUB_SECRET example_cfg)) full_body) = full_hex"
    by (simp add: full_lib_def hexdigest_full)
  have v0: "verify_signature full_lib example_cfg full_body (''sha1='' @ ''00'') = Inr False"
    unfolding verify_signature_prefixed [OF s] h
    by (simp add: compare_digest_def isascii_def strip_def isspace_def full_hex_def)
  have v1: "verify_signature full_lib example_cfg full_body (''sha1='' @ full_hex) = Inr True"
    unfolding verify_signature_prefixed [OF s] h
    by (simp add: compare_digest_def isascii_def strip_def isspace_def full_hex_def)
  have r0: "signature_of (push ''sha1=00'' full_body) = ''sha1='' @ ''00''"
    and r1: "signature_of (push (''sha1='' @ full_hex) full_body) = ''sha1='' @ full_hex"
    and b: "\<And>sig. body (push sig full_body) = full_body"
    by (simp_all add: signature_of_def push_def)
  have dec: "decode_utf8_replace full_lib full_body = doc_full"
    by (simp add: full_lib_def lib_parsing_def full_body_def decode_ascii_bytes_of_char)
  have fs: "ET_fromstring full_lib doc_full = Inr (feed_root [entry_full])"
    by (simp add: full_lib_def lib_parsing_def)
  have e: "find_child (feed_root [entry_full]) (qname atom_ns ''entry'') = Some entry_full"
    by (simp add: entry_full_def example_tags)
  have p: "parse_atom_for_video full_lib doc_full
             = Inr (Some (''v1'', Some ''Hello'', Some ''https://example.com/v1''))"
    unfolding parse_entry [OF fs e] by (simp add: entry_full_def example_tags)
  have w0: "websub_post full_lib example_cfg (push ''sha1=00'' full_body)
              = (Inr \<lparr>status = 403, body_text = Some ''Invalid signature''\<rparr>, None)"
    by (rule websub_post_rejected) (simp only: r0 b v0)
  have w1: "websub_post full_lib example_cfg (push (''sha1='' @ full_hex) full_body)
              = (Inr \<lparr>status = 204, body_text = None\<rparr>,
                 Some (''v1'', Some ''Hello'', Some ''https://example.com/v1''))"
    by (rule websub_post_accepted) (simp_all only: r1 b v1 dec p)
  show ?thesis
    unfolding deliver_def w0 w1
    by (simp add: announce_video_def ok_client_def hello_msg_def)
qed

text \<open>
  C3 says that every POST whose signature does not verify is answered with 403. For the
  header \<^verbatim>\<open>X-Hub-Signature: sha1=\<close> followed by the character U+00E9,
  \<^verbatim>\<open>hmac.compare_digest\<close> raises \<^verbatim>\<open>TypeError\<close>; \<^verbatim>\<open>_verify_signature\<close> is called
  before the \<^verbatim>\<open>try\<close> block, so the exception leaves the handler and no 403 response
  is returned.
\<close>

theorem websub_post_non_ascii_signature:
  "WEBSUB_SECRET example_cfg \<noteq> []
   \<and> verify_signature full_lib example_cfg full_body (''sha1='' @ [CHR 0xE9]) = Inl TypeError
   \<and> websub_post full_lib example_cfg (push (''sha1='' @ [CHR 0xE9]) full_body) = (Inl TypeError, None)"
proof -
  have s: "WEBSUB_SECRET example_cfg \<noteq> []" by (simp add: example_cfg_def)
  have v: "verify_signature full_lib example_cfg full_body (''sha1='' @ [CHR 0xE9]) = Inl TypeError"
    unfolding verify_signature_prefixed [OF s]
    by (simp add: compare_digest_def isascii_def strip_def isspace_def)
  have "signature_of (push (''sha1='' @ [CHR 0xE9]) full_body) = ''sha1='' @ [CHR 0xE9]"
    "body (push (''sha1='' @ [CHR 0xE9]) full_body) = full_body"
    by (simp_all add: signature_of_def push_def)
  with v have "websub_post full_lib example_cfg (push (''sha1='' @ [CHR 0xE9]) full_body) = (Inl TypeError, None)"
    by (simp add: websub_post_raises)
  with s v show ?thesis by simp
qed

section \<open>Properties of \<^verbatim>\<open>subscribe_websub\<close>\<close>

lemma str_500: "str_int 500 = ''500''"
  by (simp add: str_int_def digits.simps)

text \<open>
  C9: \<^verbatim>\<open>subscribe_websub\<close> returns normally exactly when the hub responds with
  status 200, 202 or 204; for a response with any other status it raises
  \<^verbatim>\<open>RuntimeError\<close>; in every case it has sent exactly one POST request.
\<close>

theorem subscribe_websub_status:
  "(fst (subscribe_websub post cfg) = Inr () \<longleftrightarrow>
      (\<exists>resp. post HUB_URL (subscribe_data cfg) = Inr resp \<and> resp_status resp \<in> {200, 202, 204}))
   \<and> (\<forall>resp. post HUB_URL (subscribe_data cfg) = Inr resp \<and> resp_status resp \<notin> {200, 202, 204}
         \<longrightarrow> fst (subscribe_websub post cfg)
               = Inl (RuntimeError (''WebSub subscribe failed: '' @ str_int (resp_status resp)
                                    @ '' '' @ resp_text resp)))
   \<and> snd (subscribe_websub post cfg) = [(HUB_URL, subscribe_data cfg)]"
  by (auto simp add: subscribe_websub_def Let_def split: sum.splits)

theorem subscribe_websub_status_witness:
  "fst (subscribe_websub (hub_answering 204 []) example_cfg) = Inr ()
   \<and> fst (subscribe_websub (hub_answering 500 ''boom'') example_cfg)
       = Inl (RuntimeError ''WebSub subscribe failed: 500 boom'')
   \<and> snd (subscribe_websub (hub_answering 500 ''boom'') example_cfg)
       = [(HUB_URL, subscribe_data example_cfg)]"
proof -
  note T = subscribe_websub_status [of "hub_answering 204 []" example_cfg]
  note U = subscribe_websub_status [of "hub_answering 500 ''boom''" example_cfg]
  have a: "hub_answering 204 [] HUB_URL (subscribe_data example_cfg)
             = Inr \<lparr>resp_status = 204, resp_text = []\<rparr>"
    by (simp add: hub_answering_def)
  have b: "hub_answering 500 ''boom'' HUB_URL (subscribe_data example_cfg)
             = Inr \<lparr>resp_status = 500, resp_text = ''boom''\<rparr>"
    by (simp add: hub_answering_def)
  from T a have 1: "fst (subscribe_websub (hub_answering 204 []) example_cfg) = Inr ()"
    by simp
  from U b have 2: "fst (subscribe_websub (hub_answering 500 ''boom'') example_cfg)
       = Inl (RuntimeError ''WebSub subscribe failed: 500 boom'')"
    by (simp add: str_500)
  from U have 3: "snd (subscribe_websub (hub_answering 500 ''boom'') example_cfg)
       = [(HUB_URL, subscribe_data example_cfg)]" by simp
  from 1 2 3 show ?thesis by simp
qed

end
